theory Spec2Isabelle
  imports Complex_Main
begin

section \<open>Python values used by app.py\<close>

text \<open>
  A Python \<open>str\<close> is a sequence of Unicode code points; the transcripts are in Indic
  scripts, so a code point is a natural number and not an 8-bit character.
  \<open>lit\<close> turns an ASCII literal of the source into such a sequence.
\<close>

type_synonym pystr = "nat list"

definition lit :: "string \<Rightarrow> pystr" where
  "lit s = map of_char s"

text \<open>
  A finite, non-negative Python \<open>float\<close> is the rational number it denotes.  On such
  values, below \<open>2 ^ 53\<close>, the operators \<open>//\<close> and \<open>%\<close> with the divisors 3600 and 60
  are exact in IEEE-754 arithmetic (\<open>fmod\<close> is exact, and the quotient of an exact
  multiple is exact), so they are the floor quotient and its remainder.  Segment times
  reported by the speech model are of this kind.  A literal such as \<open>59.999\<close> denotes
  the double nearest to it, which is given below as a fraction.
\<close>

type_synonym pyfloat = real

definition float_floordiv :: "pyfloat \<Rightarrow> pyfloat \<Rightarrow> pyfloat" where
  "float_floordiv x y = of_int \<lfloor>x / y\<rfloor>"

definition float_mod :: "pyfloat \<Rightarrow> pyfloat \<Rightarrow> pyfloat" where
  "float_mod x y = x - y * of_int \<lfloor>x / y\<rfloor>"

text \<open>\<open>int(x)\<close> truncates towards zero.\<close>

definition py_int :: "pyfloat \<Rightarrow> int" where
  "py_int x = (if x < 0 then - \<lfloor>- x\<rfloor> else \<lfloor>x\<rfloor>)"

text \<open>\<open>str(n)\<close> for a natural number: its decimal digits, code points 48 to 57.\<close>

fun str_nat :: "nat \<Rightarrow> pystr" where
  "str_nat n = (if n < 10 then [48 + n] else str_nat (n div 10) @ [48 + n mod 10])"

declare str_nat.simps [simp del]

definition str_int :: "int \<Rightarrow> pystr" where
  "str_int i = (if i < 0 then 45 # str_nat (nat (- i)) else str_nat (nat i))"

text \<open>Zero fill on the left up to a width, as the \<open>0\<close> flag of a format specification.\<close>

definition zfill :: "nat \<Rightarrow> pystr \<Rightarrow> pystr" where
  "zfill w s = replicate (w - length s) 48 @ s"

text \<open>The format specification \<open>0wd\<close>: the sign counts in the width.\<close>

definition format_d :: "nat \<Rightarrow> int \<Rightarrow> pystr" where
  "format_d w i =
     (if i < 0 then 45 # zfill (w - 1) (str_nat (nat (- i))) else zfill w (str_nat (nat i)))"

text \<open>
  The format specification \<open>0w.pf\<close>.  Python prints the decimal expansion of the
  exact value of the double rounded to \<open>p\<close> places, a tie going to the even digit.
\<close>

definition round_half_even :: "real \<Rightarrow> int" where
  "round_half_even x =
     (let f = \<lfloor>x\<rfloor>; d = x - of_int f
      in if d < 1 / 2 then f else if 1 / 2 < d then f + 1 else if even f then f else f + 1)"

definition format_f :: "nat \<Rightarrow> nat \<Rightarrow> pyfloat \<Rightarrow> pystr" where
  "format_f w p x =
     (let m = nat (round_half_even (\<bar>x\<bar> * 10 ^ p));
          body = str_nat (m div 10 ^ p) @
                 (if p = 0 then [] else 46 # zfill p (str_nat (m mod 10 ^ p)))
      in if x < 0 then 45 # zfill (w - 1) body else zfill w body)"

text \<open>\<open>s.replace(a, b)\<close> for one-character strings \<open>a\<close> and \<open>b\<close>.\<close>

definition replace_char :: "nat \<Rightarrow> nat \<Rightarrow> pystr \<Rightarrow> pystr" where
  "replace_char a b s = map (\<lambda>c. if c = a then b else c) s"

text \<open>
  \<open>s.strip()\<close> removes leading and trailing white space; the code points are those
  for which \<open>str.isspace\<close> holds.
\<close>

definition is_space :: "nat \<Rightarrow> bool" where
  "is_space c =
     (c \<in> set [9, 10, 11, 12, 13, 28, 29, 30, 31, 32, 133, 160, 5760,
                8232, 8233, 8239, 8287, 12288]
      \<or> (8192 \<le> c \<and> c \<le> 8202))"

definition strip :: "pystr \<Rightarrow> pystr" where
  "strip s = rev (dropWhile is_space (rev (dropWhile is_space s)))"

text \<open>\<open>s.lower()\<close> on the ASCII letters; the language names of the table are ASCII.\<close>

definition lower :: "pystr \<Rightarrow> pystr" where
  "lower s = map (\<lambda>c. if 65 \<le> c \<and> c \<le> 90 then c + 32 else c) s"

section \<open>format\_time\_srt (app.py, lines 215 to 220)\<close>

definition format_time_srt :: "pyfloat \<Rightarrow> pystr" where
  "format_time_srt seconds =
     (let hours = py_int (float_floordiv seconds 3600);
          minutes = py_int (float_floordiv (float_mod seconds 3600) 60);
          seconds = float_mod seconds 60
      in replace_char 46 44
           (format_d 2 hours @ lit '':'' @ format_d 2 minutes @ lit '':'' @
            format_f 6 3 seconds))"

text \<open>
  The time format as the specification words it: hours, minutes, whole seconds and
  milliseconds as separate zero-padded fields, with a comma before the milliseconds.
\<close>

definition srt_time_spec :: "real \<Rightarrow> pystr" where
  "srt_time_spec s =
     (let h = nat \<lfloor>s / 3600\<rfloor>;
          m = nat \<lfloor>(s - 3600 * of_int \<lfloor>s / 3600\<rfloor>) / 60\<rfloor>;
          ms = nat (round_half_even ((s - 60 * of_int \<lfloor>s / 60\<rfloor>) * 1000))
      in zfill 2 (str_nat h) @ lit '':'' @ zfill 2 (str_nat m) @ lit '':'' @
         zfill 2 (str_nat (ms div 1000)) @ lit '','' @ zfill 3 (str_nat (ms mod 1000)))"

text \<open>The doubles denoted by the literals \<open>3661.5\<close>, \<open>59.999\<close>, \<open>59.9995\<close> and \<open>59.9996\<close>.\<close>

definition float_3661_5 :: pyfloat where
  "float_3661_5 = 7323 / 2"

definition float_59_999 :: pyfloat where
  "float_59_999 = 8444108563831325 / 140737488355328"

definition float_59_9995 :: pyfloat where
  "float_59_9995 = 4222089466287751 / 70368744177664"

definition float_59_9996 :: pyfloat where
  "float_59_9996 = 4222096503162169 / 70368744177664"

text \<open>The double denoted by the literal \<open>119.9996\<close>, just below two minutes.\<close>

definition float_119_9996 :: pyfloat where
  "float_119_9996 = 8444221153822009 / 70368744177664"

section \<open>The world of a run\<close>

text \<open>
  Exceptions are values.  The type stands for the instances of Python's \<open>Exception\<close>,
  which is what every handler of app.py catches; \<open>exn_str\<close> is \<open>str(e)\<close>.
\<close>

datatype exn = NameError pystr | KeyError pystr | Raised pystr

fun exn_str :: "exn \<Rightarrow> pystr" where
  "exn_str (NameError n) = lit ''name '' @ [39] @ n @ [39] @ lit '' is not defined''"
| "exn_str (KeyError k) = [39] @ k @ [39]"
| "exn_str (Raised m) = m"

text \<open>
  A temporary file is known by its path.  The suffix of the name plays no part below,
  so a path is a serial number; \<open>files\<close> lists the temporary files on disk.
\<close>

type_synonym path = nat

record segment =
  seg_start :: pyfloat
  seg_end :: pyfloat
  seg_text :: pystr

text \<open>
  The dictionary returned by the speech model: the key \<open>text\<close> and, when present, the
  key \<open>segments\<close>.  Such a dictionary is never empty, so \<open>if result:\<close> holds for it.
\<close>

record result =
  res_text :: pystr
  res_segments :: "segment list option"

text \<open>A loaded model is an object; \<open>model_id\<close> is its identity.\<close>

record whisper_model =
  model_name :: pystr
  model_id :: nat

text \<open>The arguments of one call of \<open>model.transcribe\<close>; no language is \<open>None\<close>.\<close>

record transcribe_call =
  call_model :: whisper_model
  call_audio :: path
  call_language :: "pystr option"
  call_fp16 :: bool
  call_verbose :: "bool option"

text \<open>What the page shows below the two placeholders of the progress bar and the status.\<close>

datatype element =
    Error pystr
  | Success pystr
  | Subheader pystr
  | TextArea pystr pystr nat
  | Dataframe "(pystr \<times> pystr) list"
  | DownloadButton pystr pystr pystr pystr

record world =
  files :: "path list"
  progress_bar :: "nat option"
  status_text :: "pystr option"
  page :: "element list"
  cache :: "(pystr \<times> whisper_model) list"
  next_obj :: nat
  calls :: "transcribe_call list"

text \<open>
  What the libraries do in a run is a parameter: whether writing the upload raises,
  whether the body of the extraction raises for a video, whether loading a model of
  a given name raises, and what the inference returns or raises for a call.
\<close>

record env =
  upload_write_error :: "exn option"
  extraction_error :: "path \<Rightarrow> exn option"
  load_model_error :: "pystr \<Rightarrow> exn option"
  inference :: "transcribe_call \<Rightarrow> exn + result"

record upload =
  file_name :: pystr
  payload :: "nat list"

record inputs =
  uploaded_file :: "upload option"
  selected_language :: pystr
  model_size :: pystr
  button :: bool

subsection \<open>Widgets\<close>

definition st_error :: "pystr \<Rightarrow> world \<Rightarrow> world" where
  "st_error msg w = w\<lparr>page := page w @ [Error msg]\<rparr>"

definition st_success :: "pystr \<Rightarrow> world \<Rightarrow> world" where
  "st_success msg w = w\<lparr>page := page w @ [Success msg]\<rparr>"

definition st_subheader :: "pystr \<Rightarrow> world \<Rightarrow> world" where
  "st_subheader msg w = w\<lparr>page := page w @ [Subheader msg]\<rparr>"

definition st_text_area :: "pystr \<Rightarrow> pystr \<Rightarrow> nat \<Rightarrow> world \<Rightarrow> world" where
  "st_text_area label val height w = w\<lparr>page := page w @ [TextArea label val height]\<rparr>"

definition st_dataframe :: "(pystr \<times> pystr) list \<Rightarrow> world \<Rightarrow> world" where
  "st_dataframe rows w = w\<lparr>page := page w @ [Dataframe rows]\<rparr>"

definition st_download_button :: "pystr \<Rightarrow> pystr \<Rightarrow> pystr \<Rightarrow> pystr \<Rightarrow> world \<Rightarrow> world" where
  "st_download_button label data fname mime w =
     w\<lparr>page := page w @ [DownloadButton label data fname mime]\<rparr>"

definition set_progress :: "nat \<Rightarrow> world \<Rightarrow> world" where
  "set_progress n w = w\<lparr>progress_bar := Some n\<rparr>"

definition set_status :: "pystr \<Rightarrow> world \<Rightarrow> world" where
  "set_status msg w = w\<lparr>status_text := Some msg\<rparr>"

subsection \<open>Temporary files\<close>

text \<open>
  \<open>tempfile.NamedTemporaryFile(delete=False, ...)\<close> creates a file under a name that
  is not in use and leaves it on disk when the \<open>with\<close> block ends.  Creating the file
  and removing an existing one are taken to succeed.
\<close>

definition fresh_path :: "path list \<Rightarrow> path" where
  "fresh_path fs = Suc (fold max fs 0)"

definition named_temporary_file :: "world \<Rightarrow> path \<times> world" where
  "named_temporary_file w =
     (let p = fresh_path (files w) in (p, w\<lparr>files := files w @ [p]\<rparr>))"

definition os_unlink :: "path \<Rightarrow> world \<Rightarrow> world" where
  "os_unlink p w = w\<lparr>files := removeAll p (files w)\<rparr>"

section \<open>The functions of app.py\<close>

subsection \<open>load\_whisper\_model (lines 54 to 57)\<close>

text \<open>
  \<open>whisper.load_model\<close> raises or builds a new object.
\<close>

definition whisper_load_model :: "env \<Rightarrow> pystr \<Rightarrow> world \<Rightarrow> (exn + whisper_model) \<times> world" where
  "whisper_load_model e name w =
     (case load_model_error e name of
        Some x \<Rightarrow> (Inl x, w)
      | None \<Rightarrow> (Inr \<lparr>model_name = name, model_id = next_obj w\<rparr>,
                 w\<lparr>next_obj := Suc (next_obj w)\<rparr>))"

text \<open>
  Modelled from the spec: the decorator \<open>st.cache_resource\<close> belongs to the web
  framework and is not in the repository.  The specification has it memoise by the
  size identifier for the lifetime of the process, with no eviction: a call whose
  argument is in the store returns the stored object, any other call runs the
  function and stores what it returns; a call that raises stores nothing.
\<close>

definition load_whisper_model :: "env \<Rightarrow> pystr \<Rightarrow> world \<Rightarrow> (exn + whisper_model) \<times> world" where
  "load_whisper_model e name w =
     (case map_of (cache w) name of
        Some m \<Rightarrow> (Inr m, w)
      | None \<Rightarrow>
         (case whisper_load_model e name w of
            (Inl x, w1) \<Rightarrow> (Inl x, w1)
          | (Inr m, w1) \<Rightarrow> (Inr m, w1\<lparr>cache := cache w1 @ [(name, m)]\<rparr>)))"

subsection \<open>extract\_audio\_from\_video (lines 59 to 74)\<close>

definition extract_audio_from_video :: "env \<Rightarrow> path \<Rightarrow> world \<Rightarrow> path option \<times> world" where
  "extract_audio_from_video e video_file w =
     (case named_temporary_file w of
        (temp_audio_path, w1) \<Rightarrow>
          (case extraction_error e video_file of
             None \<Rightarrow> (Some temp_audio_path, w1)
           | Some x \<Rightarrow> (None, st_error (lit ''Error extracting audio: '' @ exn_str x) w1)))"

subsection \<open>transcribe\_audio (lines 76 to 88)\<close>

definition transcribe_audio ::
  "env \<Rightarrow> path \<Rightarrow> whisper_model \<Rightarrow> pystr \<Rightarrow> world \<Rightarrow> result option \<times> world" where
  "transcribe_audio e audio_path model language_code w =
     (let c = \<lparr>call_model = model, call_audio = audio_path,
                call_language = Some language_code, call_fp16 = False,
                call_verbose = Some False\<rparr>;
          w1 = w\<lparr>calls := calls w @ [c]\<rparr>
      in case inference e c of
           Inr r \<Rightarrow> (Some r, w1)
         | Inl x \<Rightarrow> (None, st_error (lit ''Error during transcription: '' @ exn_str x) w1))"

section \<open>The script (lines 97 to 213)\<close>

text \<open>
  The framework runs the script from top to bottom in a new module namespace on every
  interaction.  A name is bound once its \<open>def\<close> or assignment has run; calling a
  name that is not bound raises \<open>NameError\<close>.  \<open>globals_at_main\<close> lists the names
  bound by lines 1 to 95, in the order in which they are bound.
\<close>

definition globals_at_main :: "string list" where
  "globals_at_main =
     [''st'', ''whisper'', ''tempfile'', ''os'', ''VideoFileClip'', ''torch'', ''warnings'',
      ''INDIC_LANGUAGES'', ''selected_language'', ''model_size'', ''load_whisper_model'',
      ''extract_audio_from_video'', ''transcribe_audio'', ''uploaded_file'']"

definition call_format_time_srt :: "string list \<Rightarrow> pyfloat \<Rightarrow> exn + pystr" where
  "call_format_time_srt g x =
     (if ''format_time_srt'' \<in> set g then Inr (format_time_srt x)
      else Inl (NameError (lit ''format_time_srt'')))"

definition INDIC_LANGUAGES :: "(pystr \<times> pystr) list" where
  "INDIC_LANGUAGES =
     [(lit ''Hindi'', lit ''hi''), (lit ''Bengali'', lit ''bn''), (lit ''Tamil'', lit ''ta''),
      (lit ''Telugu'', lit ''te''), (lit ''Marathi'', lit ''mr''), (lit ''Gujarati'', lit ''gu''),
      (lit ''Kannada'', lit ''kn''), (lit ''Malayalam'', lit ''ml''), (lit ''Punjabi'', lit ''pa''),
      (lit ''Urdu'', lit ''ur''), (lit ''Assamese'', lit ''as''), (lit ''Nepali'', lit ''ne'')]"

text \<open>One row of the segment table (lines 166 to 171).\<close>

definition mm_ss :: "pyfloat \<Rightarrow> pystr" where
  "mm_ss t = format_d 2 (py_int (float_floordiv t 60)) @ lit '':'' @
             format_d 2 (py_int (float_mod t 60))"

definition segment_row :: "segment \<Rightarrow> pystr \<times> pystr" where
  "segment_row seg =
     (let start_time = mm_ss (seg_start seg);
          end_time = mm_ss (seg_end seg)
      in (start_time @ lit '' - '' @ end_time, strip (seg_text seg)))"

text \<open>
  The loop of lines 192 to 195: \<open>i\<close> is the counter of \<open>enumerate(..., 1)\<close> and the
  last argument is \<open>srt_content\<close>.  Code point 10 is the line feed.
\<close>

fun srt_loop :: "string list \<Rightarrow> nat \<Rightarrow> segment list \<Rightarrow> pystr \<Rightarrow> exn + pystr" where
  "srt_loop g i [] srt_content = Inr srt_content"
| "srt_loop g i (seg # rest) srt_content =
     (case call_format_time_srt g (seg_start seg) of
        Inl x \<Rightarrow> Inl x
      | Inr start_time \<Rightarrow>
         (case call_format_time_srt g (seg_end seg) of
            Inl x \<Rightarrow> Inl x
          | Inr end_time \<Rightarrow>
              srt_loop g (i + 1) rest
                (srt_content @ str_nat i @ [10] @ start_time @ lit '' --> '' @ end_time @
                 [10] @ strip (seg_text seg) @ [10, 10])))"

text \<open>The Result Presenter: the body of \<open>if result:\<close> (lines 145 to 202).\<close>

definition present :: "string list \<Rightarrow> inputs \<Rightarrow> result \<Rightarrow> world \<Rightarrow> (exn + unit) \<times> world" where
  "present g inp res w =
     (let w1 = set_progress 100 w;
          w2 = set_status ([9989] @ lit '' Transcription completed!'') w1;
          w3 = st_success (lit ''Transcription completed successfully!'') w2;
          w4 = st_subheader ([128221] @ lit '' Full Transcription'') w3;
          w5 = st_text_area (lit ''Transcribed Text'') (res_text res) 300 w4;
          w6 = (case res_segments res of
                  None \<Rightarrow> w5
                | Some segs \<Rightarrow>
                    st_dataframe (map segment_row segs)
                      (st_subheader ([9200] @ lit '' Timestamped Segments'') w5));
          w7 = st_subheader ([128190] @ lit '' Download Options'') w6;
          w8 = st_download_button ([128196] @ lit '' Download as TXT'') (res_text res)
                 (lit ''transcription_'' @ lower (selected_language inp) @ lit ''.txt'')
                 (lit ''text/plain'') w7
      in case res_segments res of
           None \<Rightarrow> (Inr (), w8)
         | Some segs \<Rightarrow>
             (case srt_loop g 1 segs [] of
                Inl x \<Rightarrow> (Inl x, w8)
              | Inr srt_content \<Rightarrow>
                  (Inr (),
                   st_download_button ([127916] @ lit '' Download as SRT'') srt_content
                     (lit ''subtitles_'' @ lower (selected_language inp) @ lit ''.srt'')
                     (lit ''text/plain'') w8)))"

text \<open>The clean-up of lines 204 to 208.\<close>

definition cleanup :: "path \<Rightarrow> path \<Rightarrow> world \<Rightarrow> world" where
  "cleanup temp_video_path audio_path w =
     (let w1 = (if temp_video_path \<in> set (files w) then os_unlink temp_video_path w else w)
      in if audio_path \<in> set (files w1) then os_unlink audio_path w1 else w1)"

text \<open>
  What follows the call of \<open>transcribe_audio\<close> (lines 144 to 208): the presenter under
  \<open>if result:\<close>, then the clean-up, which is inside \<open>if audio_path:\<close> and outside
  \<open>if result:\<close>.
\<close>

definition after_transcribe ::
  "string list \<Rightarrow> inputs \<Rightarrow> path \<Rightarrow> path \<Rightarrow> result option \<Rightarrow> world \<Rightarrow> (exn + unit) \<times> world" where
  "after_transcribe g inp temp_video_path audio_path r w =
     (case (case r of None \<Rightarrow> (Inr (), w) | Some res \<Rightarrow> present g inp res w) of
        (Inl x, w1) \<Rightarrow> (Inl x, w1)
      | (Inr u, w1) \<Rightarrow> (Inr (), cleanup temp_video_path audio_path w1))"

text \<open>What follows a successful extraction (lines 131 to 208).\<close>

definition after_extract ::
  "string list \<Rightarrow> env \<Rightarrow> inputs \<Rightarrow> path \<Rightarrow> path \<Rightarrow> world \<Rightarrow> (exn + unit) \<times> world" where
  "after_extract g e inp temp_video_path audio_path w =
     (let w1 = set_progress 50 (set_status ([129302] @ lit '' Loading AI model...'') w)
      in case load_whisper_model e (model_size inp) w1 of
           (Inl x, w2) \<Rightarrow> (Inl x, w2)
         | (Inr model, w2) \<Rightarrow>
             (let w3 = set_progress 70 (set_status ([127919] @ lit '' Transcribing audio...'') w2)
              in case map_of INDIC_LANGUAGES (selected_language inp) of
                   None \<Rightarrow> (Inl (KeyError (selected_language inp)), w3)
                 | Some language_code \<Rightarrow>
                     (case transcribe_audio e audio_path model language_code w3 of
                        (r, w4) \<Rightarrow> after_transcribe g inp temp_video_path audio_path r w4)))"

text \<open>The body of the \<open>try\<close> statement (lines 116 to 208).\<close>

definition main_try :: "string list \<Rightarrow> env \<Rightarrow> inputs \<Rightarrow> world \<Rightarrow> (exn + unit) \<times> world" where
  "main_try g e inp w =
     (let w1 = set_progress 10 (set_status ([128193] @ lit '' Saving video file...'') w)
      in case named_temporary_file w1 of
           (temp_video_path, w2) \<Rightarrow>
             (case upload_write_error e of
                Some x \<Rightarrow> (Inl x, w2)
              | None \<Rightarrow>
                  (let w3 = set_progress 30
                              (set_status ([127925] @ lit '' Extracting audio from video...'') w2)
                   in case extract_audio_from_video e temp_video_path w3 of
                        (None, w4) \<Rightarrow> (Inr (), w4)
                      | (Some audio_path, w4) \<Rightarrow>
                          after_extract g e inp temp_video_path audio_path w4)))"

text \<open>
  The body of \<open>if st.button(...)\<close> (lines 112 to 213): the two placeholders, the
  \<open>try\<close> statement and its handler.
\<close>

definition start_transcription :: "string list \<Rightarrow> env \<Rightarrow> inputs \<Rightarrow> world \<Rightarrow> world" where
  "start_transcription g e inp w =
     (let w0 = w\<lparr>progress_bar := Some 0, status_text := None\<rparr>
      in case main_try g e inp w0 of
           (Inr u, w1) \<Rightarrow> w1
         | (Inl x, w1) \<Rightarrow>
             (st_error (lit ''An error occurred: '' @ exn_str x) w1)
               \<lparr>progress_bar := None, status_text := None\<rparr>)"

text \<open>
  One run of the script.  The statements of lines 1 to 110 draw the header, the
  side bar and the file information, and the footer follows line 220; they are left
  out.  The block of lines 97 to 213 runs with the names bound so far, and the
  \<open>def\<close> of \<open>format_time_srt\<close> at line 215 runs after it.  The result is the
  namespace at the end of the run and the world.
\<close>

definition script :: "env \<Rightarrow> inputs \<Rightarrow> world \<Rightarrow> string list \<times> world" where
  "script e inp w =
     (let g = globals_at_main;
          w1 = (case uploaded_file inp of
                  None \<Rightarrow> w
                | Some up \<Rightarrow> if button inp then start_transcription g e inp w else w)
      in (g @ [''format_time_srt''], w1))"

text \<open>The elements that only the Result Presenter draws.\<close>

fun is_presenter :: "element \<Rightarrow> bool" where
  "is_presenter (TextArea l v h) = True"
| "is_presenter (Dataframe rows) = True"
| "is_presenter (DownloadButton l d f m) = True"
| "is_presenter x = False"

fun is_error :: "element \<Rightarrow> bool" where
  "is_error (Error m) = True"
| "is_error x = False"

fun is_srt_download :: "element \<Rightarrow> bool" where
  "is_srt_download (DownloadButton l d f m) = (l = [127916] @ lit '' Download as SRT'')"
| "is_srt_download x = False"

text \<open>
  The store of the cache in a running process: the objects in it were built earlier, so
  their identities lie below the next one, and no two entries hold the same object.
\<close>

definition cache_ok :: "world \<Rightarrow> bool" where
  "cache_ok w =
     (list_all (\<lambda>(n, m). model_id m < next_obj w) (cache w) \<and>
      distinct (map (\<lambda>(n, m). model_id m) (cache w)))"

definition world0 :: world where
  "world0 = \<lparr>files = [], progress_bar = None, status_text = None, page = [], cache = [],
             next_obj = 0, calls = []\<rparr>"

definition env_ok :: "result \<Rightarrow> env" where
  "env_ok r = \<lparr>upload_write_error = None, extraction_error = (\<lambda>p. None),
               load_model_error = (\<lambda>n. None), inference = (\<lambda>c. Inr r)\<rparr>"

definition srt_block :: "nat \<Rightarrow> segment \<Rightarrow> pystr" where
  "srt_block i seg =
     str_nat i @ [10] @ format_time_srt (seg_start seg) @ lit '' --> '' @
     format_time_srt (seg_end seg) @ [10] @ strip (seg_text seg) @ [10, 10]"

definition txt_button :: "inputs \<Rightarrow> result \<Rightarrow> element" where
  "txt_button inp res =
     DownloadButton ([128196] @ lit '' Download as TXT'') (res_text res)
       (lit ''transcription_'' @ lower (selected_language inp) @ lit ''.txt'') (lit ''text/plain'')"

definition srt_button :: "inputs \<Rightarrow> pystr \<Rightarrow> element" where
  "srt_button inp srt_content =
     DownloadButton ([127916] @ lit '' Download as SRT'') srt_content
       (lit ''subtitles_'' @ lower (selected_language inp) @ lit ''.srt'') (lit ''text/plain'')"

definition presented_head :: "result \<Rightarrow> element list" where
  "presented_head res =
     [Success (lit ''Transcription completed successfully!''),
      Subheader ([128221] @ lit '' Full Transcription''),
      TextArea (lit ''Transcribed Text'') (res_text res) 300]"

definition transcribe_args :: "whisper_model \<Rightarrow> path \<Rightarrow> pystr \<Rightarrow> transcribe_call" where
  "transcribe_args model audio_path language_code =
     \<lparr>call_model = model, call_audio = audio_path, call_language = Some language_code,
      call_fp16 = False, call_verbose = Some False\<rparr>"

definition temp_video :: "world \<Rightarrow> path" where
  "temp_video w = fresh_path (files w)"

definition temp_audio :: "world \<Rightarrow> path" where
  "temp_audio w = fresh_path (files w @ [fresh_path (files w)])"

text \<open>The world in which \<open>after_extract\<close> starts when the upload is saved and the audio extracted.\<close>

definition extracted :: "world \<Rightarrow> world" where
  "extracted w =
     w\<lparr>status_text := Some ([127925] @ lit '' Extracting audio from video...''),
       progress_bar := Some 30,
       files := files w @ [temp_video w, temp_audio w]\<rparr>"

text \<open>What the presenter adds to the page, and how it ends.\<close>

definition presented :: "string list \<Rightarrow> inputs \<Rightarrow> result \<Rightarrow> element list" where
  "presented g inp res =
     presented_head res @
     (case res_segments res of
        None \<Rightarrow> [Subheader ([128190] @ lit '' Download Options''), txt_button inp res]
      | Some segs \<Rightarrow>
          [Subheader ([9200] @ lit '' Timestamped Segments''), Dataframe (map segment_row segs),
           Subheader ([128190] @ lit '' Download Options''), txt_button inp res] @
          (case srt_loop g 1 segs [] of Inl x \<Rightarrow> [] | Inr c \<Rightarrow> [srt_button inp c]))"

definition present_outcome :: "string list \<Rightarrow> result \<Rightarrow> exn + unit" where
  "present_outcome g res =
     (case res_segments res of
        None \<Rightarrow> Inr ()
      | Some segs \<Rightarrow> (case srt_loop g 1 segs [] of Inl x \<Rightarrow> Inl x | Inr c \<Rightarrow> Inr ()))"

text \<open>The world in which the \<open>try\<close> statement starts (lines 112 and 113).\<close>

definition started :: "world \<Rightarrow> world" where
  "started w = w\<lparr>progress_bar := Some 0, status_text := None\<rparr>"

definition outer_error :: "exn \<Rightarrow> element" where
  "outer_error x = Error (lit ''An error occurred: '' @ exn_str x)"



definition inputs0 :: inputs where
  "inputs0 = \<lparr>uploaded_file = Some \<lparr>file_name = lit ''clip.mp4'', payload = []\<rparr>,
               selected_language = lit ''Hindi'', model_size = lit ''small'', button = True\<rparr>"

definition env_extraction_fails :: env where
  "env_extraction_fails =
     \<lparr>upload_write_error = None,
      extraction_error = (\<lambda>p. Some (Raised (lit ''no audio track''))),
      load_model_error = (\<lambda>n. None),
      inference = (\<lambda>c. Inl (Raised (lit ''not reached'')))\<rparr>"

definition env_load_fails :: env where
  "env_load_fails =
     \<lparr>upload_write_error = None, extraction_error = (\<lambda>p. None),
      load_model_error = (\<lambda>n. Some (Raised (lit ''out of memory''))),
      inference = (\<lambda>c. Inl (Raised (lit ''not reached'')))\<rparr>"

definition env_transcribe_fails :: env where
  "env_transcribe_fails =
     \<lparr>upload_write_error = None, extraction_error = (\<lambda>p. None),
      load_model_error = (\<lambda>n. None),
      inference = (\<lambda>c. Inl (Raised (lit ''corrupt audio'')))\<rparr>"

definition small_model :: whisper_model where
  "small_model = \<lparr>model_name = lit ''small'', model_id = 0\<rparr>"

definition silent_result :: result where
  "silent_result = \<lparr>res_text = [], res_segments = Some []\<rparr>"

definition hello_segment :: segment where
  "hello_segment = \<lparr>seg_start = 0, seg_end = float_3661_5, seg_text = lit '' hello ''\<rparr>"

definition one_segment_result :: result where
  "one_segment_result = \<lparr>res_text = lit '' hello '', res_segments = Some [hello_segment]\<rparr>"

definition tiny_model :: whisper_model where
  "tiny_model = \<lparr>model_name = lit ''tiny'', model_id = 1\<rparr>"

definition world_small :: world where
  "world_small = world0\<lparr>next_obj := 1, cache := [(lit ''small'', small_model)]\<rparr>"

definition world_both :: world where
  "world_both = world0\<lparr>next_obj := 2,
     cache := [(lit ''small'', small_model), (lit ''tiny'', tiny_model)]\<rparr>"

section \<open>Facts about the string functions\<close>

lemma str_nat_small: "n < 10 \<Longrightarrow> str_nat n = [48 + n]"
  by (simp add: str_nat.simps)

lemma str_nat_big: "10 \<le> n \<Longrightarrow> str_nat n = str_nat (n div 10) @ [48 + n mod 10]"
  by (subst str_nat.simps) simp

lemma replicate_numeral_unfold: "replicate (numeral k) x = x # replicate (pred_numeral k) x"
  by (simp add: numeral_eq_Suc)

lemma str_nat_digits: "c \<in> set (str_nat n) \<Longrightarrow> 48 \<le> c \<and> c \<le> 57"
proof (induction n arbitrary: c rule: str_nat.induct)
  case (1 n)
  show ?case
  proof (cases "n < 10")
    case True
    with "1.prems" show ?thesis by (simp add: str_nat_small)
  next
    case False
    then have "c \<in> set (str_nat (n div 10)) \<or> c = 48 + n mod 10"
      using "1.prems" by (auto simp: str_nat_big)
    then show ?thesis
    proof
      assume "c \<in> set (str_nat (n div 10))"
      with False "1.IH" show ?thesis by simp
    next
      assume c: "c = 48 + n mod 10"
      have "n mod 10 < 10" by simp
      with c show ?thesis by linarith
    qed
  qed
qed

lemma str_nat_nonempty: "1 \<le> length (str_nat n)"
  by (subst str_nat.simps) simp

lemma length_str_nat_lt_1000: "n < 1000 \<Longrightarrow> length (str_nat n) \<le> 3"
proof -
  assume n: "n < 1000"
  show ?thesis
  proof (cases "n < 10")
    case True
    then show ?thesis by (simp add: str_nat_small)
  next
    case a: False
    show ?thesis
    proof (cases "n div 10 < 10")
      case True
      with a show ?thesis by (simp add: str_nat_big str_nat_small)
    next
      case b: False
      have "n div 10 div 10 < 10" using n by simp
      with a b show ?thesis by (simp add: str_nat_big str_nat_small)
    qed
  qed
qed

lemma replace_char_id: "a \<notin> set s \<Longrightarrow> replace_char a b s = s"
  by (induction s) (auto simp: replace_char_def)

lemma replace_char_append: "replace_char a b (s @ t) = replace_char a b s @ replace_char a b t"
  by (simp add: replace_char_def)

lemma zfill_digits: "c \<in> set (zfill w (str_nat n)) \<Longrightarrow> 48 \<le> c \<and> c \<le> 57"
  using str_nat_digits by (auto simp: zfill_def)

lemma replace_dot_zfill: "replace_char 46 b (zfill w (str_nat n)) = zfill w (str_nat n)"
proof (rule replace_char_id)
  show "46 \<notin> set (zfill w (str_nat n))"
    using zfill_digits [of 46 w n] by auto
qed

lemma length_zfill_3: "n < 1000 \<Longrightarrow> length (zfill 3 (str_nat n)) = 3"
  using length_str_nat_lt_1000 [of n] by (simp add: zfill_def)

lemma zfill_6_point:
  assumes "length t = 3"
  shows "zfill 6 (s @ 46 # t) = zfill 2 s @ 46 # t"
  using assms by (simp add: zfill_def)

section \<open>The time format\<close>


lemma py_int_of_int_nonneg: "0 \<le> k \<Longrightarrow> py_int (of_int k) = k"
  by (simp add: py_int_def)

lemma format_d_nonneg: "0 \<le> i \<Longrightarrow> format_d w i = zfill w (str_nat (nat i))"
  by (simp add: format_d_def)

lemma float_mod_nonneg: "0 < y \<Longrightarrow> 0 \<le> float_mod x y"
proof -
  assume y: "0 < y"
  have "of_int \<lfloor>x / y\<rfloor> \<le> x / y" by (rule of_int_floor_le)
  then have "of_int \<lfloor>x / y\<rfloor> * y \<le> x"
    using y by (simp only: pos_le_divide_eq)
  then have "y * of_int \<lfloor>x / y\<rfloor> \<le> x"
    by (simp only: mult.commute)
  then show ?thesis by (simp add: float_mod_def)
qed

lemma format_f_6_3_nonneg:
  assumes "0 \<le> x"
  shows "format_f 6 3 x =
     zfill 2 (str_nat (nat (round_half_even (x * 1000)) div 1000)) @
     46 # zfill 3 (str_nat (nat (round_half_even (x * 1000)) mod 1000))"
proof -
  let ?m = "nat (round_half_even (x * 1000))"
  have len: "length (zfill 3 (str_nat (?m mod 1000))) = 3"
    by (rule length_zfill_3) simp
  have "format_f 6 3 x = zfill 6 (str_nat (?m div 1000) @ 46 # zfill 3 (str_nat (?m mod 1000)))"
    using assms by (simp add: format_f_def Let_def)
  also have "\<dots> = zfill 2 (str_nat (?m div 1000)) @ 46 # zfill 3 (str_nat (?m mod 1000))"
    using len by (rule zfill_6_point)
  finally show ?thesis .
qed

lemma format_time_srt_refines:
  assumes "0 \<le> s"
  shows "format_time_srt s = srt_time_spec s"
proof -
  let ?h = "\<lfloor>s / 3600\<rfloor>"
  let ?r = "float_mod s 3600"
  let ?m = "\<lfloor>?r / 60\<rfloor>"
  let ?sec = "float_mod s 60"
  let ?ms = "nat (round_half_even (?sec * 1000))"
  have h0: "0 \<le> ?h" using assms by simp
  have r0: "0 \<le> ?r" by (rule float_mod_nonneg) simp
  have m0: "0 \<le> ?m" using r0 by simp
  have sec0: "0 \<le> ?sec" by (rule float_mod_nonneg) simp
  have hours: "py_int (float_floordiv s 3600) = ?h"
    unfolding float_floordiv_def using h0 by (rule py_int_of_int_nonneg)
  have minutes: "py_int (float_floordiv ?r 60) = ?m"
    unfolding float_floordiv_def using m0 by (rule py_int_of_int_nonneg)
  have "format_time_srt s =
      replace_char 46 44 (zfill 2 (str_nat (nat ?h)) @ lit '':'' @ zfill 2 (str_nat (nat ?m)) @ lit '':'' @
         zfill 2 (str_nat (?ms div 1000)) @ 46 # zfill 3 (str_nat (?ms mod 1000)))"
    unfolding format_time_srt_def Let_def hours minutes
    by (simp only: format_d_nonneg [OF h0] format_d_nonneg [OF m0] format_f_6_3_nonneg [OF sec0])
  also have "\<dots> = zfill 2 (str_nat (nat ?h)) @ lit '':'' @ zfill 2 (str_nat (nat ?m)) @ lit '':'' @
         zfill 2 (str_nat (?ms div 1000)) @ lit '','' @ zfill 3 (str_nat (?ms mod 1000))"
  proof -
    have colon: "replace_char 46 44 (lit '':'') = lit '':''"
      by (simp add: replace_char_def lit_def)
    have dot: "replace_char 46 44 (46 # t) = lit '','' @ replace_char 46 44 t" for t
      by (simp add: replace_char_def lit_def)
    show ?thesis
      by (simp only: replace_char_append replace_dot_zfill colon dot)
  qed
  also have "\<dots> = srt_time_spec s"
    by (simp add: srt_time_spec_def Let_def float_mod_def)
  finally show ?thesis .
qed

lemmas format_time_srt_eval = format_time_srt_def float_floordiv_def float_mod_def py_int_def format_d_def format_f_def zfill_def round_half_even_def str_nat_small str_nat_big replace_char_def lit_def Let_def replicate_numeral_unfold

lemma format_time_srt_0: "format_time_srt 0 = lit ''00:00:00,000''" by (simp add: format_time_srt_eval)
lemma format_time_srt_3661_5: "format_time_srt float_3661_5 = lit ''01:01:01,500''" by (simp add: format_time_srt_eval float_3661_5_def)
lemma format_time_srt_59_999: "format_time_srt float_59_999 = lit ''00:00:59,999''" by (simp add: format_time_srt_eval float_59_999_def)

lemma srt_time_spec_below_minute:
  assumes "0 \<le> s" and "s < 60"
  shows "srt_time_spec s = lit ''00:00:'' @
     zfill 2 (str_nat (nat (round_half_even (s * 1000)) div 1000)) @ lit '','' @
     zfill 3 (str_nat (nat (round_half_even (s * 1000)) mod 1000))"
proof -
  have h: "\<lfloor>s / 3600\<rfloor> = 0" using assms by (simp add: floor_eq_iff)
  have m: "\<lfloor>s / 60\<rfloor> = 0" using assms by (simp add: floor_eq_iff)
  show ?thesis
    by (simp add: srt_time_spec_def Let_def h m zfill_def str_nat_small lit_def replicate_numeral_unfold)
qed

lemma round_half_even_up:
  assumes "of_int k + 1 / 2 < x" and "x < of_int k + 1"
  shows "round_half_even x = k + 1"
proof -
  have f: "\<lfloor>x\<rfloor> = k" using assms by (simp add: floor_eq_iff)
  show ?thesis using assms by (simp add: round_half_even_def Let_def f)
qed

text \<open>
  C10 (as amended).  \<open>format_time_srt\<close> does not cap the seconds field below 60: every
  input above 59.9995 and below one minute, such as the double written \<open>59.9996\<close>, is
  printed as \<open>00:00:60,000\<close>; the overflow is not carried into the minutes field.
\<close>

theorem seconds_field_reaches_60:
  assumes "119999 / 2000 < s" and "s < 60"
  shows "format_time_srt s = lit ''00:00:60,000''"
proof -
  have s0: "0 \<le> s" using assms by simp
  have "round_half_even (s * 1000) = 59999 + 1"
    using assms by (intro round_half_even_up) simp_all
  then have r: "nat (round_half_even (s * 1000)) = 60000" by simp
  have "format_time_srt s = srt_time_spec s" using s0 by (rule format_time_srt_refines)
  also have "\<dots> = lit ''00:00:60,000''"
    by (simp add: srt_time_spec_below_minute [OF s0 assms(2)] r zfill_def str_nat_small str_nat_big lit_def replicate_numeral_unfold)
  finally show ?thesis .
qed

theorem seconds_field_reaches_60_witness:
  "119999 / 2000 < float_59_9996 \<and> float_59_9996 < 60 \<and>
   format_time_srt float_59_9996 = lit ''00:00:60,000''"
proof -
  have a: "119999 / 2000 < float_59_9996" by (simp add: float_59_9996_def)
  have b: "float_59_9996 < 60" by (simp add: float_59_9996_def)
  show ?thesis using a b seconds_field_reaches_60 [OF a b] by simp
qed

text \<open>
  C2 at the double written \<open>119.9996\<close>.  The hours and the minutes are the floors that
  the claim names, and \<open>0.0\<close>, \<open>3661.5\<close> and \<open>59.999\<close> are printed as the claim says.
  But the remaining seconds \<open>59.9996\<close> are rounded to three places after the modulus, so
  the seconds field overflows to \<open>60,000\<close> beside the minutes \<open>01\<close>: the time just
  below two minutes is printed as \<open>00:01:60,000\<close>.
\<close>

theorem seconds_overflow_at_119_9996:
  "format_time_srt 0 = lit ''00:00:00,000'' \<and>
   format_time_srt float_3661_5 = lit ''01:01:01,500'' \<and>
   format_time_srt float_59_999 = lit ''00:00:59,999'' \<and>
   0 \<le> float_119_9996 \<and> float_119_9996 < 120 \<and>
   format_time_srt float_119_9996 = lit ''00:01:60,000'' \<and>
   take 2 (drop 6 (format_time_srt float_119_9996)) = lit ''60''"
proof -
  have a: "0 \<le> float_119_9996" "float_119_9996 < 120"
    by (simp_all add: float_119_9996_def)
  have b: "format_time_srt float_119_9996 = lit ''00:01:60,000''"
    by (simp add: format_time_srt_eval float_119_9996_def)
  have c: "take 2 (drop 6 (format_time_srt float_119_9996)) = lit ''60''"
    by (simp add: b lit_def)
  show ?thesis
    by (intro conjI) (fact format_time_srt_0 format_time_srt_3661_5 format_time_srt_59_999 a b c)+
qed

text \<open>
  The example of C10 as it is written: the double nearest to \<open>59.9995\<close> lies below
  \<open>59.9995\<close>, and is printed with a seconds field of \<open>59,999\<close>.
\<close>

theorem literal_59_9995_not_rounded_up:
  "float_59_9995 < 60 \<and> format_time_srt float_59_9995 = lit ''00:00:59,999'' \<and>
   format_time_srt float_59_9995 \<noteq> lit ''00:00:60,000''"
  by (simp add: format_time_srt_eval float_59_9995_def)

lemma fold_max_ge: "a \<le> fold max fs (a::nat)"
proof (induction fs arbitrary: a)
  case Nil
  show ?case by simp
next
  case (Cons x fs)
  have "a \<le> max x a" by simp
  also have "\<dots> \<le> fold max fs (max x a)" by (rule Cons.IH)
  finally show ?case by simp
qed

lemma fold_max_member: "x \<in> set fs \<Longrightarrow> x \<le> fold max fs (a::nat)"
proof (induction fs arbitrary: a)
  case Nil
  then show ?case by simp
next
  case (Cons y fs)
  show ?case
  proof (cases "x = y")
    case True
    have "x \<le> max y a" using True by simp
    also have "\<dots> \<le> fold max fs (max y a)" by (rule fold_max_ge)
    finally show ?thesis by simp
  next
    case False
    with Cons.prems have "x \<in> set fs" by simp
    then have "x \<le> fold max fs (max y a)" by (rule Cons.IH)
    then show ?thesis by simp
  qed
qed

lemma fresh_path_new: "fresh_path fs \<notin> set fs"
proof
  assume "fresh_path fs \<in> set fs"
  then have "fresh_path fs \<le> fold max fs 0" by (rule fold_max_member)
  then show False by (simp add: fresh_path_def)
qed

lemma files_st_error [simp]: "files (st_error m w) = files w"
  by (simp add: st_error_def)

lemma load_whisper_model_hit:
  "map_of (cache w) a = Some m \<Longrightarrow> load_whisper_model e a w = (Inr m, w)"
  by (simp add: load_whisper_model_def)

lemma load_whisper_model_miss:
  assumes "map_of (cache w) a = None"
  shows "load_whisper_model e a w =
     (case load_model_error e a of
        Some x \<Rightarrow> (Inl x, w)
      | None \<Rightarrow> (Inr \<lparr>model_name = a, model_id = next_obj w\<rparr>,
                 w\<lparr>next_obj := Suc (next_obj w),
                   cache := cache w @ [(a, \<lparr>model_name = a, model_id = next_obj w\<rparr>)]\<rparr>))"
  using assms by (simp add: load_whisper_model_def whisper_load_model_def split: option.splits)

lemma map_of_append_keep: "map_of xs b = Some v \<Longrightarrow> map_of (xs @ ys) b = Some v"
  by (simp add: map_add_Some_iff)

lemma map_of_append_new: "map_of xs a = None \<Longrightarrow> map_of (xs @ [(a, v)]) a = Some v"
  by (simp add: map_add_Some_iff)

lemma load_whisper_model_stores:
  assumes "load_whisper_model e a w = (Inr m, w1)"
  shows "map_of (cache w1) a = Some m"
proof (cases "map_of (cache w) a")
  case None
  with assms show ?thesis
    by (auto simp: load_whisper_model_miss map_add_Some_iff split: option.splits)
next
  case (Some m')
  with assms show ?thesis by (simp add: load_whisper_model_hit)
qed

lemma load_whisper_model_keeps:
  assumes "load_whisper_model e a w = (r, w1)" and "map_of (cache w) b = Some m'"
  shows "map_of (cache w1) b = Some m'"
proof (cases "map_of (cache w) a")
  case None
  with assms show ?thesis
    by (auto simp: load_whisper_model_miss map_add_Some_iff split: option.splits)
next
  case (Some m)
  with assms show ?thesis by (simp add: load_whisper_model_hit)
qed

lemma cache_ok_lookup:
  assumes "cache_ok w" and "map_of (cache w) b = Some m'"
  shows "model_id m' < next_obj w"
proof -
  from assms(2) have "(b, m') \<in> set (cache w)" by (rule map_of_SomeD)
  with assms(1) show ?thesis by (auto simp: cache_ok_def list_all_iff)
qed

lemma load_whisper_model_cache_ok:
  assumes "load_whisper_model e a w = (r, w1)" and "cache_ok w"
  shows "cache_ok w1"
proof (cases "map_of (cache w) a")
  case None
  have bound: "list_all (\<lambda>(n, m). model_id m < Suc (next_obj w)) (cache w)"
    using assms(2) by (auto simp: cache_ok_def list_all_iff)
  have new: "next_obj w \<notin> set (map (\<lambda>(n, m). model_id m) (cache w))"
    using assms(2) by (auto simp: cache_ok_def list_all_iff)
  have old: "list_all (\<lambda>(n, m). model_id m < next_obj w) (cache w)"
    and dist: "distinct (map (\<lambda>(n, m). model_id m) (cache w))"
    using assms(2) by (simp_all add: cache_ok_def)
  show ?thesis
  proof (cases "load_model_error e a")
    case (Some x)
    with None assms(1) have "w1 = w" by (simp add: load_whisper_model_miss)
    with assms(2) show ?thesis by simp
  next
    case ok: None
    with None assms(1) have "cache w1 = cache w @ [(a, \<lparr>model_name = a, model_id = next_obj w\<rparr>)]"
      and "next_obj w1 = Suc (next_obj w)"
      by (auto simp: load_whisper_model_miss)
    with bound new dist show ?thesis by (simp add: cache_ok_def)
  qed
next
  case (Some m)
  with assms show ?thesis by (simp add: load_whisper_model_hit)
qed

lemma cache_ok_distinct_objects:
  assumes "cache_ok w" and "map_of (cache w) a = Some m1" and "map_of (cache w) b = Some m2"
      and "a \<noteq> b"
  shows "model_id m1 \<noteq> model_id m2"
proof
  assume eq: "model_id m1 = model_id m2"
  have inj: "inj_on (\<lambda>(n, m). model_id m) (set (cache w))"
    using assms(1) by (simp add: cache_ok_def distinct_map)
  have in1: "(a, m1) \<in> set (cache w)" using assms(2) by (rule map_of_SomeD)
  have in2: "(b, m2) \<in> set (cache w)" using assms(3) by (rule map_of_SomeD)
  have "(a, m1) = (b, m2)"
    by (rule inj_onD [OF inj _ in1 in2]) (simp add: eq)
  with assms(4) show False by simp
qed

lemma load_whisper_model_new_id:
  assumes "load_whisper_model e a w = (Inr m, w1)" and "map_of (cache w) a = None"
  shows "model_id m = next_obj w"
  using assms by (auto simp: load_whisper_model_miss split: option.splits)

lemmas widget_defs = st_error_def st_success_def st_subheader_def st_text_area_def
  st_dataframe_def st_download_button_def set_progress_def set_status_def

lemma format_time_srt_unbound: "''format_time_srt'' \<notin> set globals_at_main"
  by (simp add: globals_at_main_def)

lemma srt_loop_unbound:
  "''format_time_srt'' \<notin> set g \<Longrightarrow>
   srt_loop g i (seg # rest) acc = Inl (NameError (lit ''format_time_srt''))"
  by (simp add: call_format_time_srt_def)

lemma srt_loop_bound:
  "''format_time_srt'' \<in> set g \<Longrightarrow>
   srt_loop g i segs acc = Inr (acc @ concat (map2 srt_block [i ..< i + length segs] segs))"
proof (induction segs arbitrary: i acc)
  case Nil
  show ?case by simp
next
  case (Cons seg segs)
  have "i < i + length (seg # segs)" by simp
  then have "[i ..< i + length (seg # segs)] = i # [Suc i ..< i + length (seg # segs)]"
    by (rule upt_conv_Cons)
  moreover have "i + length (seg # segs) = Suc i + length segs" by simp
  ultimately have "[i ..< i + length (seg # segs)] = i # [Suc i ..< Suc i + length segs]"
    by (simp only:)
  then show ?case
    using Cons by (simp add: call_format_time_srt_def srt_block_def)
qed

lemma cleanup_files:
  assumes "v \<notin> set fs" and "a \<notin> set fs" and "files w = fs @ [v, a]"
  shows "files (cleanup v a w) = fs"
  using assms by (auto simp: cleanup_def os_unlink_def Let_def)

lemma cleanup_other [simp]:
  "page (cleanup v a w) = page w"
  "progress_bar (cleanup v a w) = progress_bar w"
  "status_text (cleanup v a w) = status_text w"
  "calls (cleanup v a w) = calls w"
  "cache (cleanup v a w) = cache w"
  "next_obj (cleanup v a w) = next_obj w"
  by (simp_all add: cleanup_def os_unlink_def Let_def)

lemma present_frame [simp]:
  "files (snd (present g inp res w)) = files w"
  "calls (snd (present g inp res w)) = calls w"
  "cache (snd (present g inp res w)) = cache w"
  "next_obj (snd (present g inp res w)) = next_obj w"
  "progress_bar (snd (present g inp res w)) = Some 100"
  by (simp_all add: present_def widget_defs Let_def split: option.splits sum.splits)

lemma present_no_segments:
  assumes "res_segments res = None"
  shows "fst (present g inp res w) = Inr ()"
    and "page (snd (present g inp res w)) =
           page w @ presented_head res @
           [Subheader ([128190] @ lit '' Download Options''), txt_button inp res]"
  using assms by (simp_all add: present_def widget_defs Let_def txt_button_def presented_head_def)

lemma present_segments:
  assumes "res_segments res = Some segs"
  shows "fst (present g inp res w) =
           (case srt_loop g 1 segs [] of Inl x \<Rightarrow> Inl x | Inr c \<Rightarrow> Inr ())"
    and "page (snd (present g inp res w)) =
           page w @ presented_head res @
           [Subheader ([9200] @ lit '' Timestamped Segments''), Dataframe (map segment_row segs),
            Subheader ([128190] @ lit '' Download Options''), txt_button inp res] @
           (case srt_loop g 1 segs [] of Inl x \<Rightarrow> [] | Inr c \<Rightarrow> [srt_button inp c])"
  using assms
  by (simp_all add: present_def widget_defs Let_def txt_button_def srt_button_def
        presented_head_def split: sum.splits)

lemma present_is_error [simp]:
  "filter is_error (page (snd (present g inp res w))) = filter is_error (page w)"
  by (simp add: present_def widget_defs Let_def split: option.splits sum.splits)

lemma present_status [simp]:
  "status_text (snd (present g inp res w)) = Some ([9989] @ lit '' Transcription completed!'')"
  by (simp add: present_def widget_defs Let_def split: option.splits sum.splits)

lemma after_transcribe_None [simp]:
  "after_transcribe g inp v a None w = (Inr (), cleanup v a w)"
  by (simp add: after_transcribe_def)

lemma after_transcribe_Some:
  "after_transcribe g inp v a (Some res) w =
     (case fst (present g inp res w) of
        Inl x \<Rightarrow> (Inl x, snd (present g inp res w))
      | Inr u \<Rightarrow> (Inr (), cleanup v a (snd (present g inp res w))))"
  by (simp add: after_transcribe_def split_beta split: sum.splits)

lemma load_frame [simp]:
  "files (snd (load_whisper_model e n w)) = files w"
  "page (snd (load_whisper_model e n w)) = page w"
  "calls (snd (load_whisper_model e n w)) = calls w"
  "progress_bar (snd (load_whisper_model e n w)) = progress_bar w"
  "status_text (snd (load_whisper_model e n w)) = status_text w"
  by (simp_all add: load_whisper_model_def whisper_load_model_def split: option.splits)

lemma transcribe_frame [simp]:
  "files (snd (transcribe_audio e a m l w)) = files w"
  "cache (snd (transcribe_audio e a m l w)) = cache w"
  "next_obj (snd (transcribe_audio e a m l w)) = next_obj w"
  "progress_bar (snd (transcribe_audio e a m l w)) = progress_bar w"
  "status_text (snd (transcribe_audio e a m l w)) = status_text w"
  "calls (snd (transcribe_audio e a m l w)) = calls w @ [transcribe_args m a l]"
  by (simp_all add: transcribe_audio_def transcribe_args_def st_error_def Let_def split: sum.splits)

lemma transcribe_result:
  "fst (transcribe_audio e a m l w) =
     (case inference e (transcribe_args m a l) of Inl x \<Rightarrow> None | Inr r \<Rightarrow> Some r)"
  "page (snd (transcribe_audio e a m l w)) =
     (case inference e (transcribe_args m a l) of
        Inl x \<Rightarrow> page w @ [Error (lit ''Error during transcription: '' @ exn_str x)]
      | Inr r \<Rightarrow> page w)"
  by (simp_all add: transcribe_audio_def transcribe_args_def st_error_def Let_def split: sum.splits)

lemma load_fst_frame:
  "cache w' = cache w \<Longrightarrow> next_obj w' = next_obj w \<Longrightarrow>
   fst (load_whisper_model e n w') = fst (load_whisper_model e n w)"
  by (simp add: load_whisper_model_def whisper_load_model_def split: option.splits)

text \<open>The world in which the extraction is attempted, and the one in which the model is loaded.\<close>

lemma after_transcribe_files:
  assumes "v \<notin> set fs" and "a \<notin> set fs" and "files w = fs @ [v, a]"
  shows "files (snd (after_transcribe g inp v a r w)) =
           (if isl (fst (after_transcribe g inp v a r w)) then fs @ [v, a] else fs)"
proof (cases r)
  case None
  then show ?thesis using assms by (simp add: cleanup_files)
next
  case (Some res)
  have "files (snd (present g inp res w)) = fs @ [v, a]" using assms(3) by simp
  then have "files (cleanup v a (snd (present g inp res w))) = fs"
    using assms(1,2) by (intro cleanup_files) 
  then show ?thesis
    using Some assms(3) by (simp add: after_transcribe_Some split: sum.splits)
qed

lemma after_extract_files:
  assumes "v \<notin> set fs" and "a \<notin> set fs" and "files w = fs @ [v, a]"
  shows "files (snd (after_extract g e inp v a w)) =
           (if isl (fst (after_extract g e inp v a w)) then fs @ [v, a] else fs)"
  using assms
  by (simp add: after_extract_def Let_def split_beta widget_defs after_transcribe_files
           split: sum.splits option.splits)

lemma temp_paths_new:
  "temp_video w \<notin> set (files w)" "temp_audio w \<notin> set (files w)" "temp_audio w \<noteq> temp_video w"
  using fresh_path_new [of "files w"] fresh_path_new [of "files w @ [fresh_path (files w)]"]
  by (auto simp: temp_video_def temp_audio_def)

lemma main_try_upload_fails:
  assumes "upload_write_error e = Some x"
  shows "fst (main_try g e inp w) = Inl x"
    and "files (snd (main_try g e inp w)) = files w @ [temp_video w]"
    and "page (snd (main_try g e inp w)) = page w"
    and "calls (snd (main_try g e inp w)) = calls w"
    and "cache (snd (main_try g e inp w)) = cache w"
    and "next_obj (snd (main_try g e inp w)) = next_obj w"
  using assms
  by (simp_all add: main_try_def Let_def named_temporary_file_def widget_defs temp_video_def)

lemma main_try_extract_fails:
  assumes "upload_write_error e = None" and "extraction_error e (temp_video w) = Some x"
  shows "fst (main_try g e inp w) = Inr ()"
    and "files (snd (main_try g e inp w)) = files w @ [temp_video w, temp_audio w]"
    and "page (snd (main_try g e inp w)) =
           page w @ [Error (lit ''Error extracting audio: '' @ exn_str x)]"
    and "progress_bar (snd (main_try g e inp w)) = Some 30"
    and "status_text (snd (main_try g e inp w)) =
           Some ([127925] @ lit '' Extracting audio from video...'')"
    and "calls (snd (main_try g e inp w)) = calls w"
    and "cache (snd (main_try g e inp w)) = cache w"
    and "next_obj (snd (main_try g e inp w)) = next_obj w"
  using assms
  by (simp_all add: main_try_def Let_def named_temporary_file_def widget_defs temp_video_def
        temp_audio_def extract_audio_from_video_def)

lemma main_try_extract_ok:
  assumes "upload_write_error e = None" and "extraction_error e (temp_video w) = None"
  shows "main_try g e inp w = after_extract g e inp (temp_video w) (temp_audio w) (extracted w)"
  using assms
  by (simp add: main_try_def Let_def named_temporary_file_def widget_defs temp_video_def
        temp_audio_def extract_audio_from_video_def extracted_def)

lemma main_try_files:
  "files (snd (main_try g e inp w)) =
     (if upload_write_error e \<noteq> None then files w @ [temp_video w]
      else if extraction_error e (temp_video w) \<noteq> None \<or> isl (fst (main_try g e inp w))
           then files w @ [temp_video w, temp_audio w]
           else files w)"
proof (cases "upload_write_error e")
  case (Some x)
  then show ?thesis by (simp add: main_try_upload_fails)
next
  case up: None
  show ?thesis
  proof (cases "extraction_error e (temp_video w)")
    case (Some x)
    with up show ?thesis by (simp add: main_try_extract_fails)
  next
    case None
    have "files (extracted w) = files w @ [temp_video w, temp_audio w]"
      by (simp add: extracted_def)
    with temp_paths_new(1,2) [of w]
    have "files (snd (after_extract g e inp (temp_video w) (temp_audio w) (extracted w))) =
        (if isl (fst (after_extract g e inp (temp_video w) (temp_audio w) (extracted w)))
         then files w @ [temp_video w, temp_audio w] else files w)"
      by (rule after_extract_files)
    with up None show ?thesis by (simp add: main_try_extract_ok)
  qed
qed

lemma present_result:
  "fst (present g inp res w) = present_outcome g res"
  "page (snd (present g inp res w)) = page w @ presented g inp res"
proof -
  show "fst (present g inp res w) = present_outcome g res"
    by (cases "res_segments res")
       (simp_all add: present_no_segments present_segments present_outcome_def)
  show "page (snd (present g inp res w)) = page w @ presented g inp res"
    by (cases "res_segments res")
       (simp_all add: present_no_segments present_segments presented_def)
qed

lemma load_fst_widgets [simp]:
  "fst (load_whisper_model e n (set_progress p (set_status s w))) = fst (load_whisper_model e n w)"
  by (rule load_fst_frame) (simp_all add: widget_defs)

lemma widget_frame [simp]:
  "files (set_progress n w) = files w" "files (set_status s w) = files w"
  "page (set_progress n w) = page w" "page (set_status s w) = page w"
  "calls (set_progress n w) = calls w" "calls (set_status s w) = calls w"
  "cache (set_progress n w) = cache w" "cache (set_status s w) = cache w"
  "next_obj (set_progress n w) = next_obj w" "next_obj (set_status s w) = next_obj w"
  "progress_bar (set_progress n w) = Some n" "progress_bar (set_status s w) = progress_bar w"
  "status_text (set_status s w) = Some s" "status_text (set_progress n w) = status_text w"
  by (simp_all add: set_progress_def set_status_def)

lemma after_extract_load_fails:
  assumes "fst (load_whisper_model e (model_size inp) w) = Inl x"
  shows "fst (after_extract g e inp v a w) = Inl x"
    and "page (snd (after_extract g e inp v a w)) = page w"
    and "calls (snd (after_extract g e inp v a w)) = calls w"
  using assms by (simp_all add: after_extract_def Let_def split_beta)

lemma after_extract_key_error:
  assumes "fst (load_whisper_model e (model_size inp) w) = Inr m"
      and "map_of INDIC_LANGUAGES (selected_language inp) = None"
  shows "fst (after_extract g e inp v a w) = Inl (KeyError (selected_language inp))"
    and "page (snd (after_extract g e inp v a w)) = page w"
    and "calls (snd (after_extract g e inp v a w)) = calls w"
  using assms by (simp_all add: after_extract_def Let_def split_beta)

lemma after_extract_transcribe_fails:
  assumes "fst (load_whisper_model e (model_size inp) w) = Inr m"
      and "map_of INDIC_LANGUAGES (selected_language inp) = Some l"
      and "inference e (transcribe_args m a l) = Inl x"
  shows "fst (after_extract g e inp v a w) = Inr ()"
    and "page (snd (after_extract g e inp v a w)) =
           page w @ [Error (lit ''Error during transcription: '' @ exn_str x)]"
    and "calls (snd (after_extract g e inp v a w)) = calls w @ [transcribe_args m a l]"
    and "progress_bar (snd (after_extract g e inp v a w)) = Some 70"
    and "status_text (snd (after_extract g e inp v a w)) =
           Some ([127919] @ lit '' Transcribing audio...'')"
  using assms
  by (simp_all add: after_extract_def Let_def split_beta transcribe_result after_transcribe_def)

lemma after_extract_transcribed:
  assumes "fst (load_whisper_model e (model_size inp) w) = Inr m"
      and "map_of INDIC_LANGUAGES (selected_language inp) = Some l"
      and "inference e (transcribe_args m a l) = Inr res"
  shows "fst (after_extract g e inp v a w) = present_outcome g res"
    and "page (snd (after_extract g e inp v a w)) = page w @ presented g inp res"
    and "calls (snd (after_extract g e inp v a w)) = calls w @ [transcribe_args m a l]"
    and "progress_bar (snd (after_extract g e inp v a w)) = Some 100"
  using assms
  by (simp_all add: after_extract_def Let_def split_beta transcribe_result
        after_transcribe_Some present_result split: sum.splits)

lemma started_frame [simp]:
  "files (started w) = files w" "page (started w) = page w" "calls (started w) = calls w"
  "cache (started w) = cache w" "next_obj (started w) = next_obj w"
  "temp_video (started w) = temp_video w" "temp_audio (started w) = temp_audio w"
  by (simp_all add: started_def temp_video_def temp_audio_def)

lemma extracted_frame [simp]:
  "files (extracted w) = files w @ [temp_video w, temp_audio w]"
  "page (extracted w) = page w" "calls (extracted w) = calls w"
  "cache (extracted w) = cache w" "next_obj (extracted w) = next_obj w"
  by (simp_all add: extracted_def)

lemma load_fst_extracted [simp]:
  "fst (load_whisper_model e n (extracted (started w))) = fst (load_whisper_model e n w)"
  by (rule load_fst_frame) simp_all

lemma start_transcription_eq:
  "start_transcription g e inp w =
     (case fst (main_try g e inp (started w)) of
        Inr u \<Rightarrow> snd (main_try g e inp (started w))
      | Inl x \<Rightarrow> (st_error (lit ''An error occurred: '' @ exn_str x)
                    (snd (main_try g e inp (started w))))
                  \<lparr>progress_bar := None, status_text := None\<rparr>)"
  by (simp add: start_transcription_def started_def Let_def split_beta split: sum.splits)

lemma start_transcription_files:
  "files (start_transcription g e inp w) = files (snd (main_try g e inp (started w)))"
  by (simp add: start_transcription_eq st_error_def split: sum.splits)

lemma start_transcription_calls:
  "calls (start_transcription g e inp w) = calls (snd (main_try g e inp (started w)))"
  by (simp add: start_transcription_eq st_error_def split: sum.splits)

lemma start_transcription_cache:
  "cache (start_transcription g e inp w) = cache (snd (main_try g e inp (started w)))"
  by (simp add: start_transcription_eq st_error_def split: sum.splits)

lemma start_transcription_Inl:
  assumes "fst (main_try g e inp (started w)) = Inl x"
  shows "page (start_transcription g e inp w) =
           page (snd (main_try g e inp (started w))) @ [outer_error x]"
    and "progress_bar (start_transcription g e inp w) = None"
    and "status_text (start_transcription g e inp w) = None"
  using assms by (simp_all add: start_transcription_eq st_error_def outer_error_def)

lemma start_transcription_Inr:
  assumes "fst (main_try g e inp (started w)) = Inr u"
  shows "start_transcription g e inp w = snd (main_try g e inp (started w))"
  using assms by (simp add: start_transcription_eq)

text \<open>The six ways through the \<open>try\<close> statement.\<close>

lemma run_cases:
  obtains
    (upload_fails) x where "upload_write_error e = Some x"
  | (extract_fails) x where "upload_write_error e = None" "extraction_error e (temp_video w) = Some x"
  | (load_fails) x where "upload_write_error e = None" "extraction_error e (temp_video w) = None"
      "fst (load_whisper_model e (model_size inp) w) = Inl x"
  | (key_error) m where "upload_write_error e = None" "extraction_error e (temp_video w) = None"
      "fst (load_whisper_model e (model_size inp) w) = Inr m"
      "map_of INDIC_LANGUAGES (selected_language inp) = None"
  | (transcribe_fails) m l x where
      "upload_write_error e = None" "extraction_error e (temp_video w) = None"
      "fst (load_whisper_model e (model_size inp) w) = Inr m"
      "map_of INDIC_LANGUAGES (selected_language inp) = Some l"
      "inference e (transcribe_args m (temp_audio w) l) = Inl x"
  | (transcribed) m l res where
      "upload_write_error e = None" "extraction_error e (temp_video w) = None"
      "fst (load_whisper_model e (model_size inp) w) = Inr m"
      "map_of INDIC_LANGUAGES (selected_language inp) = Some l"
      "inference e (transcribe_args m (temp_audio w) l) = Inr res"
proof (cases "upload_write_error e")
  case (Some x)
  then show ?thesis by (rule upload_fails)
next
  case up: None
  show ?thesis
  proof (cases "extraction_error e (temp_video w)")
    case (Some x)
    with up show ?thesis by (rule extract_fails)
  next
    case ex: None
    show ?thesis
    proof (cases "fst (load_whisper_model e (model_size inp) w)")
      case (Inl x)
      with up ex show ?thesis by (rule load_fails)
    next
      case ld: (Inr m)
      show ?thesis
      proof (cases "map_of INDIC_LANGUAGES (selected_language inp)")
        case None
        with up ex ld show ?thesis by (rule key_error)
      next
        case lang: (Some l)
        show ?thesis
        proof (cases "inference e (transcribe_args m (temp_audio w) l)")
          case (Inl x)
          with up ex ld lang show ?thesis by (rule transcribe_fails)
        next
          case (Inr res)
          with up ex ld lang show ?thesis by (rule transcribed)
        qed
      qed
    qed
  qed
qed

lemma run_upload_fails:
  assumes "upload_write_error e = Some x"
  shows "files (start_transcription g e inp w) = files w @ [temp_video w]"
    and "page (start_transcription g e inp w) = page w @ [outer_error x]"
    and "progress_bar (start_transcription g e inp w) = None"
    and "status_text (start_transcription g e inp w) = None"
    and "calls (start_transcription g e inp w) = calls w"
proof -
  note m = main_try_upload_fails [OF assms, of g inp "started w"]
  show "files (start_transcription g e inp w) = files w @ [temp_video w]"
    by (simp add: start_transcription_files m)
  show "page (start_transcription g e inp w) = page w @ [outer_error x]"
    by (simp add: start_transcription_Inl [OF m(1)] m)
  show "progress_bar (start_transcription g e inp w) = None"
    by (rule start_transcription_Inl [OF m(1)])
  show "status_text (start_transcription g e inp w) = None"
    by (rule start_transcription_Inl [OF m(1)])
  show "calls (start_transcription g e inp w) = calls w"
    by (simp add: start_transcription_calls m)
qed

lemma run_extract_fails:
  assumes "upload_write_error e = None" and "extraction_error e (temp_video w) = Some x"
  shows "files (start_transcription g e inp w) = files w @ [temp_video w, temp_audio w]"
    and "page (start_transcription g e inp w) =
           page w @ [Error (lit ''Error extracting audio: '' @ exn_str x)]"
    and "progress_bar (start_transcription g e inp w) = Some 30"
    and "status_text (start_transcription g e inp w) =
           Some ([127925] @ lit '' Extracting audio from video...'')"
    and "calls (start_transcription g e inp w) = calls w"
proof -
  have ex: "extraction_error e (temp_video (started w)) = Some x" using assms(2) by simp
  note m = main_try_extract_fails [OF assms(1) ex, of g inp]
  have eq: "start_transcription g e inp w = snd (main_try g e inp (started w))"
    using m(1) by (rule start_transcription_Inr)
  show "files (start_transcription g e inp w) = files w @ [temp_video w, temp_audio w]"
    by (simp add: eq m)
  show "page (start_transcription g e inp w) =
           page w @ [Error (lit ''Error extracting audio: '' @ exn_str x)]"
    by (simp add: eq m)
  show "progress_bar (start_transcription g e inp w) = Some 30"
    by (simp add: eq m)
  show "status_text (start_transcription g e inp w) =
           Some ([127925] @ lit '' Extracting audio from video...'')"
    by (simp add: eq m)
  show "calls (start_transcription g e inp w) = calls w"
    by (simp add: eq m)
qed

lemma main_try_after_extract:
  assumes "upload_write_error e = None" and "extraction_error e (temp_video w) = None"
  shows "main_try g e inp (started w) =
           after_extract g e inp (temp_video w) (temp_audio w) (extracted (started w))"
proof -
  have "extraction_error e (temp_video (started w)) = None" using assms(2) by simp
  with assms(1) have "main_try g e inp (started w) =
      after_extract g e inp (temp_video (started w)) (temp_audio (started w)) (extracted (started w))"
    by (rule main_try_extract_ok)
  then show ?thesis by simp
qed

lemma files_after_extract_started:
  "files (snd (after_extract g e inp (temp_video w) (temp_audio w) (extracted (started w)))) =
     (if isl (fst (after_extract g e inp (temp_video w) (temp_audio w) (extracted (started w))))
      then files w @ [temp_video w, temp_audio w] else files w)"
proof (rule after_extract_files)
  show "temp_video w \<notin> set (files w)" by (rule temp_paths_new)
  show "temp_audio w \<notin> set (files w)" by (rule temp_paths_new)
  show "files (extracted (started w)) = files w @ [temp_video w, temp_audio w]" by simp
qed

lemma run_outer_error:
  assumes "upload_write_error e = None" and "extraction_error e (temp_video w) = None"
      and "fst (after_extract g e inp (temp_video w) (temp_audio w) (extracted (started w))) = Inl x"
      and "page (snd (after_extract g e inp (temp_video w) (temp_audio w) (extracted (started w)))) =
             page w @ added"
      and "calls (snd (after_extract g e inp (temp_video w) (temp_audio w) (extracted (started w)))) =
             calls w @ cs"
  shows "files (start_transcription g e inp w) = files w @ [temp_video w, temp_audio w]"
    and "page (start_transcription g e inp w) = page w @ added @ [outer_error x]"
    and "progress_bar (start_transcription g e inp w) = None"
    and "status_text (start_transcription g e inp w) = None"
    and "calls (start_transcription g e inp w) = calls w @ cs"
proof -
  note eq = main_try_after_extract [OF assms(1,2), of g inp]
  have inl: "fst (main_try g e inp (started w)) = Inl x" using assms(3) by (simp add: eq)
  show "files (start_transcription g e inp w) = files w @ [temp_video w, temp_audio w]"
    using assms(3) by (simp add: start_transcription_files eq files_after_extract_started)
  show "page (start_transcription g e inp w) = page w @ added @ [outer_error x]"
    using assms(4) by (simp add: start_transcription_Inl [OF inl] eq)
  show "progress_bar (start_transcription g e inp w) = None"
    by (rule start_transcription_Inl [OF inl])
  show "status_text (start_transcription g e inp w) = None"
    by (rule start_transcription_Inl [OF inl])
  show "calls (start_transcription g e inp w) = calls w @ cs"
    using assms(5) by (simp add: start_transcription_calls eq)
qed

lemma run_load_fails:
  assumes "upload_write_error e = None" and "extraction_error e (temp_video w) = None"
      and "fst (load_whisper_model e (model_size inp) w) = Inl x"
  shows "files (start_transcription g e inp w) = files w @ [temp_video w, temp_audio w]"
    and "page (start_transcription g e inp w) = page w @ [outer_error x]"
    and "progress_bar (start_transcription g e inp w) = None"
    and "status_text (start_transcription g e inp w) = None"
    and "calls (start_transcription g e inp w) = calls w"
proof -
  have ld: "fst (load_whisper_model e (model_size inp) (extracted (started w))) = Inl x"
    using assms(3) by simp
  note a = after_extract_load_fails [OF ld, of g "temp_video w" "temp_audio w"]
  have pg: "page (snd (after_extract g e inp (temp_video w) (temp_audio w) (extracted (started w)))) =
      page w @ []" by (simp add: a)
  have cl: "calls (snd (after_extract g e inp (temp_video w) (temp_audio w) (extracted (started w)))) =
      calls w @ []" by (simp add: a)
  note r = run_outer_error [OF assms(1,2) a(1) pg cl]
  show "files (start_transcription g e inp w) = files w @ [temp_video w, temp_audio w]" by (rule r)
  show "page (start_transcription g e inp w) = page w @ [outer_error x]" using r(2) by simp
  show "progress_bar (start_transcription g e inp w) = None" by (rule r)
  show "status_text (start_transcription g e inp w) = None" by (rule r)
  show "calls (start_transcription g e inp w) = calls w" using r(5) by simp
qed

lemma run_key_error:
  assumes "upload_write_error e = None" and "extraction_error e (temp_video w) = None"
      and "fst (load_whisper_model e (model_size inp) w) = Inr m"
      and "map_of INDIC_LANGUAGES (selected_language inp) = None"
  shows "files (start_transcription g e inp w) = files w @ [temp_video w, temp_audio w]"
    and "page (start_transcription g e inp w) =
           page w @ [outer_error (KeyError (selected_language inp))]"
    and "progress_bar (start_transcription g e inp w) = None"
    and "status_text (start_transcription g e inp w) = None"
    and "calls (start_transcription g e inp w) = calls w"
proof -
  have ld: "fst (load_whisper_model e (model_size inp) (extracted (started w))) = Inr m"
    using assms(3) by simp
  note a = after_extract_key_error [OF ld assms(4), of g "temp_video w" "temp_audio w"]
  have pg: "page (snd (after_extract g e inp (temp_video w) (temp_audio w) (extracted (started w)))) =
      page w @ []" by (simp add: a)
  have cl: "calls (snd (after_extract g e inp (temp_video w) (temp_audio w) (extracted (started w)))) =
      calls w @ []" by (simp add: a)
  note r = run_outer_error [OF assms(1,2) a(1) pg cl]
  show "files (start_transcription g e inp w) = files w @ [temp_video w, temp_audio w]" by (rule r)
  show "page (start_transcription g e inp w) =
           page w @ [outer_error (KeyError (selected_language inp))]" using r(2) by simp
  show "progress_bar (start_transcription g e inp w) = None" by (rule r)
  show "status_text (start_transcription g e inp w) = None" by (rule r)
  show "calls (start_transcription g e inp w) = calls w" using r(5) by simp
qed

lemma run_transcribe_fails:
  assumes "upload_write_error e = None" and "extraction_error e (temp_video w) = None"
      and "fst (load_whisper_model e (model_size inp) w) = Inr m"
      and "map_of INDIC_LANGUAGES (selected_language inp) = Some l"
      and "inference e (transcribe_args m (temp_audio w) l) = Inl x"
  shows "files (start_transcription g e inp w) = files w"
    and "page (start_transcription g e inp w) =
           page w @ [Error (lit ''Error during transcription: '' @ exn_str x)]"
    and "progress_bar (start_transcription g e inp w) = Some 70"
    and "status_text (start_transcription g e inp w) =
           Some ([127919] @ lit '' Transcribing audio...'')"
    and "calls (start_transcription g e inp w) = calls w @ [transcribe_args m (temp_audio w) l]"
proof -
  have ld: "fst (load_whisper_model e (model_size inp) (extracted (started w))) = Inr m"
    using assms(3) by simp
  note a = after_extract_transcribe_fails [OF ld assms(4,5), of g "temp_video w"]
  note eq = main_try_after_extract [OF assms(1,2), of g inp]
  have inr: "fst (main_try g e inp (started w)) = Inr ()" by (simp add: eq a)
  have st: "start_transcription g e inp w =
      snd (after_extract g e inp (temp_video w) (temp_audio w) (extracted (started w)))"
    using start_transcription_Inr [OF inr] by (simp add: eq)
  show "files (start_transcription g e inp w) = files w"
    by (simp add: st files_after_extract_started a)
  show "page (start_transcription g e inp w) =
           page w @ [Error (lit ''Error during transcription: '' @ exn_str x)]"
    by (simp add: st a)
  show "progress_bar (start_transcription g e inp w) = Some 70" by (simp add: st a)
  show "status_text (start_transcription g e inp w) =
           Some ([127919] @ lit '' Transcribing audio...'')" by (simp add: st a)
  show "calls (start_transcription g e inp w) = calls w @ [transcribe_args m (temp_audio w) l]"
    by (simp add: st a)
qed

lemma run_transcribed_ok:
  assumes "upload_write_error e = None" and "extraction_error e (temp_video w) = None"
      and "fst (load_whisper_model e (model_size inp) w) = Inr m"
      and "map_of INDIC_LANGUAGES (selected_language inp) = Some l"
      and "inference e (transcribe_args m (temp_audio w) l) = Inr res"
      and "present_outcome g res = Inr ()"
  shows "files (start_transcription g e inp w) = files w"
    and "page (start_transcription g e inp w) = page w @ presented g inp res"
    and "progress_bar (start_transcription g e inp w) = Some 100"
    and "calls (start_transcription g e inp w) = calls w @ [transcribe_args m (temp_audio w) l]"
proof -
  have ld: "fst (load_whisper_model e (model_size inp) (extracted (started w))) = Inr m"
    using assms(3) by simp
  note a = after_extract_transcribed [OF ld assms(4,5), of g "temp_video w"]
  note eq = main_try_after_extract [OF assms(1,2), of g inp]
  have inr: "fst (main_try g e inp (started w)) = Inr ()" by (simp add: eq a assms(6))
  have st: "start_transcription g e inp w =
      snd (after_extract g e inp (temp_video w) (temp_audio w) (extracted (started w)))"
    using start_transcription_Inr [OF inr] by (simp add: eq)
  show "files (start_transcription g e inp w) = files w"
    by (simp add: st files_after_extract_started a assms(6))
  show "page (start_transcription g e inp w) = page w @ presented g inp res"
    by (simp add: st a)
  show "progress_bar (start_transcription g e inp w) = Some 100" by (simp add: st a)
  show "calls (start_transcription g e inp w) = calls w @ [transcribe_args m (temp_audio w) l]"
    by (simp add: st a)
qed

lemma run_transcribed_raises:
  assumes "upload_write_error e = None" and "extraction_error e (temp_video w) = None"
      and "fst (load_whisper_model e (model_size inp) w) = Inr m"
      and "map_of INDIC_LANGUAGES (selected_language inp) = Some l"
      and "inference e (transcribe_args m (temp_audio w) l) = Inr res"
      and "present_outcome g res = Inl x"
  shows "files (start_transcription g e inp w) = files w @ [temp_video w, temp_audio w]"
    and "page (start_transcription g e inp w) = page w @ presented g inp res @ [outer_error x]"
    and "progress_bar (start_transcription g e inp w) = None"
    and "status_text (start_transcription g e inp w) = None"
    and "calls (start_transcription g e inp w) = calls w @ [transcribe_args m (temp_audio w) l]"
proof -
  have ld: "fst (load_whisper_model e (model_size inp) (extracted (started w))) = Inr m"
    using assms(3) by simp
  note a = after_extract_transcribed [OF ld assms(4,5), of g "temp_video w"]
  have f: "fst (after_extract g e inp (temp_video w) (temp_audio w) (extracted (started w))) = Inl x"
    by (simp add: a assms(6))
  have pg: "page (snd (after_extract g e inp (temp_video w) (temp_audio w) (extracted (started w)))) =
      page w @ presented g inp res" by (simp add: a)
  have cl: "calls (snd (after_extract g e inp (temp_video w) (temp_audio w) (extracted (started w)))) =
      calls w @ [transcribe_args m (temp_audio w) l]" by (simp add: a)
  note r = run_outer_error [OF assms(1,2) f pg cl]
  show "files (start_transcription g e inp w) = files w @ [temp_video w, temp_audio w]" by (rule r)
  show "page (start_transcription g e inp w) = page w @ presented g inp res @ [outer_error x]"
    by (rule r)
  show "progress_bar (start_transcription g e inp w) = None" by (rule r)
  show "status_text (start_transcription g e inp w) = None" by (rule r)
  show "calls (start_transcription g e inp w) = calls w @ [transcribe_args m (temp_audio w) l]"
    by (rule r)
qed

text \<open>The presenter under the namespace of the script.\<close>

lemma present_outcome_main:
  "present_outcome globals_at_main res =
     (case res_segments res of
        None \<Rightarrow> Inr ()
      | Some [] \<Rightarrow> Inr ()
      | Some (seg # segs) \<Rightarrow> Inl (NameError (lit ''format_time_srt'')))"
  by (simp add: present_outcome_def srt_loop_unbound [OF format_time_srt_unbound]
        del: srt_loop.simps(2) split: option.splits list.splits)

lemma presented_main:
  "presented globals_at_main inp res =
     presented_head res @
     (case res_segments res of
        None \<Rightarrow> [Subheader ([128190] @ lit '' Download Options''), txt_button inp res]
      | Some segs \<Rightarrow>
          [Subheader ([9200] @ lit '' Timestamped Segments''), Dataframe (map segment_row segs),
           Subheader ([128190] @ lit '' Download Options''), txt_button inp res] @
          (if segs = [] then [srt_button inp []] else []))"
proof (cases "res_segments res")
  case None
  then show ?thesis by (simp add: presented_def)
next
  case (Some segs)
  show ?thesis
  proof (cases segs)
    case Nil
    with Some show ?thesis by (simp add: presented_def)
  next
    case (Cons seg rest)
    with Some show ?thesis
      by (simp add: presented_def srt_loop_unbound [OF format_time_srt_unbound]
            del: srt_loop.simps(2))
  qed
qed

lemma script_run:
  assumes "uploaded_file inp = Some up" and "button inp"
  shows "snd (script e inp w) = start_transcription globals_at_main e inp w"
    and "fst (script e inp w) = globals_at_main @ [''format_time_srt'']"
  using assms by (simp_all add: script_def Let_def)

lemma script_idle:
  assumes "uploaded_file inp = None \<or> \<not> button inp"
  shows "snd (script e inp w) = w"
  using assms by (auto simp: script_def Let_def split: option.splits)

lemma world0_paths: "temp_video world0 = 1" "temp_audio world0 = 2"
  by (simp_all add: temp_video_def temp_audio_def fresh_path_def world0_def)

lemma inputs0_fields:
  "uploaded_file inputs0 = Some \<lparr>file_name = lit ''clip.mp4'', payload = []\<rparr>"
  "button inputs0" "model_size inputs0 = lit ''small''" "selected_language inputs0 = lit ''Hindi''"
  by (simp_all add: inputs0_def)

lemma hindi_code: "map_of INDIC_LANGUAGES (selected_language inputs0) = Some (lit ''hi'')"
  by (simp add: INDIC_LANGUAGES_def inputs0_def lit_def)

lemma world0_load:
  "load_model_error e (lit ''small'') = None \<Longrightarrow>
   fst (load_whisper_model e (model_size inputs0) world0) = Inr small_model"
  by (simp add: load_whisper_model_def whisper_load_model_def world0_def inputs0_def
        small_model_def)

lemma world0_fields: "files world0 = []" "page world0 = []" "calls world0 = []"
  by (simp_all add: world0_def)

lemma filter_is_error_presented [simp]: "filter is_error (presented g inp res) = []"
  by (simp add: presented_def presented_head_def txt_button_def srt_button_def
        split: option.splits sum.splits)

lemma main_try_Inl_no_banner:
  assumes "fst (main_try g e inp (started w)) = Inl x"
  shows "filter is_error (page (snd (main_try g e inp (started w)))) = filter is_error (page w)"
proof (cases rule: run_cases [where e = e and w = w and inp = inp])
  case (upload_fails y)
  then show ?thesis by (simp add: main_try_upload_fails)
next
  case (extract_fails y)
  then have "fst (main_try g e inp (started w)) = Inr ()"
    by (intro main_try_extract_fails) simp_all
  with assms show ?thesis by simp
next
  case (load_fails y)
  then show ?thesis
    by (simp add: main_try_after_extract after_extract_load_fails)
next
  case (key_error m)
  then show ?thesis
    by (simp add: main_try_after_extract after_extract_key_error [where m = m])
next
  case (transcribe_fails m l y)
  then have "fst (main_try g e inp (started w)) = Inr ()"
    by (simp add: main_try_after_extract after_extract_transcribe_fails [where m = m and l = l])
  with assms show ?thesis by simp
next
  case (transcribed m l res)
  then show ?thesis
    by (simp add: main_try_after_extract after_extract_transcribed [where m = m and l = l])
qed

text \<open>
  C3, as it is written.  A run in which transcription fails shows the banner of
  \<open>transcribe_audio\<close> and ends with no temporary file on disk: the clean-up of lines
  204 to 208 is inside \<open>if audio_path:\<close> and outside \<open>if result:\<close>.
\<close>

theorem transcription_failure_deletes_temp_files:
  "page (snd (script env_transcribe_fails inputs0 world0)) =
     [Error (lit ''Error during transcription: corrupt audio'')] \<and>
   temp_video world0 \<notin> set (files (snd (script env_transcribe_fails inputs0 world0))) \<and>
   temp_audio world0 \<notin> set (files (snd (script env_transcribe_fails inputs0 world0))) \<and>
   files (snd (script env_transcribe_fails inputs0 world0)) = []"
proof -
  have up: "upload_write_error env_transcribe_fails = None"
    and ex: "extraction_error env_transcribe_fails (temp_video world0) = None"
    and inf: "inference env_transcribe_fails (transcribe_args small_model (temp_audio world0) (lit ''hi''))
              = Inl (Raised (lit ''corrupt audio''))"
    by (simp_all add: env_transcribe_fails_def)
  have ld: "fst (load_whisper_model env_transcribe_fails (model_size inputs0) world0) = Inr small_model"
    by (rule world0_load) (simp add: env_transcribe_fails_def)
  note r = run_transcribe_fails [OF up ex ld hindi_code inf, of globals_at_main]
  have s: "snd (script env_transcribe_fails inputs0 world0) =
      start_transcription globals_at_main env_transcribe_fails inputs0 world0"
    by (rule script_run) (simp_all add: inputs0_fields)
  show ?thesis by (simp add: s r world0_fields lit_def)
qed

text \<open>
  C3 (as amended).  At the end of a run the temporary files of the run are gone exactly
  when saving the upload and extracting the audio succeeded and no exception reached the
  outer handler.  This includes every run in which transcription fails.  The video file
  is left on disk when saving the upload fails, and both files are left when extraction
  fails or an exception reaches the outer handler, as a model-load error does.
\<close>

theorem temp_files_after_run:
  assumes "uploaded_file inp = Some up" and "button inp"
  shows "files (snd (script e inp w)) =
           (if upload_write_error e \<noteq> None then files w @ [temp_video w]
            else if extraction_error e (temp_video w) \<noteq> None \<or>
                    isl (fst (main_try globals_at_main e inp (started w)))
                 then files w @ [temp_video w, temp_audio w]
                 else files w) \<and>
         (upload_write_error e = None \<and> extraction_error e (temp_video w) = None \<and>
          fst (load_whisper_model e (model_size inp) w) = Inr m \<and>
          map_of INDIC_LANGUAGES (selected_language inp) = Some l \<and>
          inference e (transcribe_args m (temp_audio w) l) = Inl x \<longrightarrow>
            files (snd (script e inp w)) = files w) \<and>
         (upload_write_error e = None \<and> extraction_error e (temp_video w) = None \<and>
          fst (load_whisper_model e (model_size inp) w) = Inl x \<longrightarrow>
            files (snd (script e inp w)) = files w @ [temp_video w, temp_audio w])"
proof -
  note s = script_run(1) [OF assms, of e w]
  have "files (snd (script e inp w)) = files (snd (main_try globals_at_main e inp (started w)))"
    by (simp add: s start_transcription_files)
  also have "\<dots> =
      (if upload_write_error e \<noteq> None then files w @ [temp_video w]
       else if extraction_error e (temp_video w) \<noteq> None \<or>
               isl (fst (main_try globals_at_main e inp (started w)))
            then files w @ [temp_video w, temp_audio w]
            else files w)"
    using main_try_files [of globals_at_main e inp "started w"] by simp
  finally have general: "files (snd (script e inp w)) =
      (if upload_write_error e \<noteq> None then files w @ [temp_video w]
       else if extraction_error e (temp_video w) \<noteq> None \<or>
               isl (fst (main_try globals_at_main e inp (started w)))
            then files w @ [temp_video w, temp_audio w]
            else files w)" .
  have tf: "files (snd (script e inp w)) = files w"
    if "upload_write_error e = None" "extraction_error e (temp_video w) = None"
       "fst (load_whisper_model e (model_size inp) w) = Inr m"
       "map_of INDIC_LANGUAGES (selected_language inp) = Some l"
       "inference e (transcribe_args m (temp_audio w) l) = Inl x"
    using run_transcribe_fails(1) [OF that, of globals_at_main] by (simp add: s)
  have lf: "files (snd (script e inp w)) = files w @ [temp_video w, temp_audio w]"
    if "upload_write_error e = None" "extraction_error e (temp_video w) = None"
       "fst (load_whisper_model e (model_size inp) w) = Inl x"
    using run_load_fails(1) [OF that, of globals_at_main] by (simp add: s)
  from general tf lf show ?thesis by blast
qed

theorem temp_files_after_run_witness:
  "uploaded_file inputs0 = Some \<lparr>file_name = lit ''clip.mp4'', payload = []\<rparr> \<and> button inputs0 \<and>
   upload_write_error env_transcribe_fails = None \<and>
   extraction_error env_transcribe_fails (temp_video world0) = None \<and>
   fst (load_whisper_model env_transcribe_fails (model_size inputs0) world0) = Inr small_model \<and>
   map_of INDIC_LANGUAGES (selected_language inputs0) = Some (lit ''hi'') \<and>
   inference env_transcribe_fails (transcribe_args small_model (temp_audio world0) (lit ''hi'')) =
     Inl (Raised (lit ''corrupt audio'')) \<and>
   files (snd (script env_transcribe_fails inputs0 world0)) = files world0"
proof -
  have up: "upload_write_error env_transcribe_fails = None"
    and ex: "extraction_error env_transcribe_fails (temp_video world0) = None"
    and inf: "inference env_transcribe_fails (transcribe_args small_model (temp_audio world0) (lit ''hi''))
              = Inl (Raised (lit ''corrupt audio''))"
    by (simp_all add: env_transcribe_fails_def)
  have ld: "fst (load_whisper_model env_transcribe_fails (model_size inputs0) world0) = Inr small_model"
    by (rule world0_load) (simp add: env_transcribe_fails_def)
  from temp_files_after_run [OF inputs0_fields(1,2), of env_transcribe_fails world0 small_model
      "lit ''hi''" "Raised (lit ''corrupt audio'')"] up ex ld hindi_code inf
  have "files (snd (script env_transcribe_fails inputs0 world0)) = files world0" by blast
  with up ex ld hindi_code inf inputs0_fields(1,2) show ?thesis by blast
qed

lemma is_presenter_outer_error [simp]: "\<not> is_presenter (outer_error x)"
  by (simp add: outer_error_def)

text \<open>
  C4.  In every run in which each call of the model's inference made by the run failed,
  so that \<open>transcribe_audio\<close> returned \<open>None\<close>, the page gains no text area, no
  segment table and no download button.
\<close>

theorem presenter_not_invoked_without_result:
  assumes "list_all (\<lambda>c. isl (inference e c))
             (drop (length (calls w)) (calls (snd (script e inp w))))"
  shows "filter is_presenter (page (snd (script e inp w))) = filter is_presenter (page w)"
proof (cases "uploaded_file inp = None \<or> \<not> button inp")
  case True
  then show ?thesis by (simp add: script_idle)
next
  case False
  then obtain up where up: "uploaded_file inp = Some up" and b: "button inp" by auto
  note s = script_run(1) [OF up b, of e w]
  show ?thesis
  proof (cases rule: run_cases [where e = e and w = w and inp = inp])
    case (upload_fails x)
    then show ?thesis by (simp add: s run_upload_fails)
  next
    case (extract_fails x)
    then show ?thesis by (simp add: s run_extract_fails)
  next
    case (load_fails x)
    then show ?thesis by (simp add: s run_load_fails)
  next
    case (key_error m)
    then show ?thesis by (simp add: s run_key_error [where m = m])
  next
    case (transcribe_fails m l x)
    then show ?thesis by (simp add: s run_transcribe_fails [where m = m and l = l])
  next
    case (transcribed m l res)
    have "calls (snd (script e inp w)) = calls w @ [transcribe_args m (temp_audio w) l]"
    proof (cases "present_outcome globals_at_main res")
      case (Inl x)
      with transcribed show ?thesis
        by (simp add: s run_transcribed_raises [where m = m and l = l])
    next
      case (Inr u)
      with transcribed show ?thesis
        by (simp add: s run_transcribed_ok [where m = m and l = l])
    qed
    with assms have "isl (inference e (transcribe_args m (temp_audio w) l))" by simp
    with transcribed(5) show ?thesis by simp
  qed
qed

theorem presenter_not_invoked_without_result_witness:
  "calls (snd (script env_transcribe_fails inputs0 world0)) =
     [transcribe_args small_model (temp_audio world0) (lit ''hi'')] \<and>
   list_all (\<lambda>c. isl (inference env_transcribe_fails c))
     (drop (length (calls world0)) (calls (snd (script env_transcribe_fails inputs0 world0)))) \<and>
   filter is_presenter (page (snd (script env_transcribe_fails inputs0 world0))) = []"
proof -
  have up: "upload_write_error env_transcribe_fails = None"
    and ex: "extraction_error env_transcribe_fails (temp_video world0) = None"
    and inf: "inference env_transcribe_fails (transcribe_args small_model (temp_audio world0) (lit ''hi''))
              = Inl (Raised (lit ''corrupt audio''))"
    by (simp_all add: env_transcribe_fails_def)
  have ld: "fst (load_whisper_model env_transcribe_fails (model_size inputs0) world0) = Inr small_model"
    by (rule world0_load) (simp add: env_transcribe_fails_def)
  have s: "snd (script env_transcribe_fails inputs0 world0) =
      start_transcription globals_at_main env_transcribe_fails inputs0 world0"
    by (rule script_run) (simp_all add: inputs0_fields)
  have c: "calls (snd (script env_transcribe_fails inputs0 world0)) =
      [transcribe_args small_model (temp_audio world0) (lit ''hi'')]"
    by (simp add: s run_transcribe_fails(5) [OF up ex ld hindi_code inf] world0_fields)
  have h: "list_all (\<lambda>c. isl (inference env_transcribe_fails c))
     (drop (length (calls world0)) (calls (snd (script env_transcribe_fails inputs0 world0))))"
    by (simp add: c world0_fields inf)
  from presenter_not_invoked_without_result [OF h]
  have "filter is_presenter (page (snd (script env_transcribe_fails inputs0 world0))) = []"
    by (simp add: world0_fields)
  with c h show ?thesis by blast
qed

text \<open>
  C5 at a run whose extraction fails.  The page shows the one error banner of
  \<open>extract_audio_from_video\<close>, and the progress indicator and the status line are not
  cleared: they still show 30 and the message of the extraction stage.
\<close>

theorem extraction_failure_keeps_progress:
  "page (snd (script env_extraction_fails inputs0 world0)) =
     [Error (lit ''Error extracting audio: no audio track'')] \<and>
   progress_bar (snd (script env_extraction_fails inputs0 world0)) = Some 30 \<and>
   status_text (snd (script env_extraction_fails inputs0 world0)) =
     Some ([127925] @ lit '' Extracting audio from video...'') \<and>
   progress_bar (snd (script env_extraction_fails inputs0 world0)) \<noteq> None"
proof -
  have up: "upload_write_error env_extraction_fails = None"
    and ex: "extraction_error env_extraction_fails (temp_video world0) =
               Some (Raised (lit ''no audio track''))"
    by (simp_all add: env_extraction_fails_def)
  have s: "snd (script env_extraction_fails inputs0 world0) =
      start_transcription globals_at_main env_extraction_fails inputs0 world0"
    by (rule script_run) (simp_all add: inputs0_fields)
  show ?thesis by (simp add: s run_extract_fails [OF up ex] world0_fields lit_def)
qed

text \<open>
  The other failure path: a model-load error reaches the outer handler (lines 210 to
  213), which shows the banner and empties both placeholders.
\<close>

lemma load_failure_clears_progress:
  "page (snd (script env_load_fails inputs0 world0)) =
     [Error (lit ''An error occurred: out of memory'')] \<and>
   progress_bar (snd (script env_load_fails inputs0 world0)) = None \<and>
   status_text (snd (script env_load_fails inputs0 world0)) = None"
proof -
  have up: "upload_write_error env_load_fails = None"
    and ex: "extraction_error env_load_fails (temp_video world0) = None"
    by (simp_all add: env_load_fails_def)
  have ld: "fst (load_whisper_model env_load_fails (model_size inputs0) world0) =
      Inl (Raised (lit ''out of memory''))"
    by (simp add: load_whisper_model_def whisper_load_model_def world0_def inputs0_def
          env_load_fails_def)
  have s: "snd (script env_load_fails inputs0 world0) =
      start_transcription globals_at_main env_load_fails inputs0 world0"
    by (rule script_run) (simp_all add: inputs0_fields)
  show ?thesis
    by (simp add: s run_load_fails [OF up ex ld] world0_fields outer_error_def lit_def)
qed

text \<open>
  C8.  Every call of \<open>extract_audio_from_video\<close> creates a new temporary audio file
  before the extraction is attempted, and the file is on disk when the function returns,
  also when the extraction fails.  On a failure of the extraction the function returns
  \<open>None\<close>; otherwise it returns the path of that file.
\<close>

theorem extract_audio_temp_file:
  "fresh_path (files w) \<notin> set (files w) \<and>
   files (snd (extract_audio_from_video e video_file w)) = files w @ [fresh_path (files w)] \<and>
   (extraction_error e video_file = None \<longrightarrow>
      fst (extract_audio_from_video e video_file w) = Some (fresh_path (files w))) \<and>
   (extraction_error e video_file \<noteq> None \<longrightarrow>
      fst (extract_audio_from_video e video_file w) = None \<and>
      fresh_path (files w) \<in> set (files (snd (extract_audio_from_video e video_file w))))"
  by (auto simp: extract_audio_from_video_def named_temporary_file_def Let_def fresh_path_new
           split: option.splits)

theorem extract_audio_temp_file_witness:
  "extraction_error env_extraction_fails 1 \<noteq> None \<and>
   fst (extract_audio_from_video env_extraction_fails 1 world0) = None \<and>
   files (snd (extract_audio_from_video env_extraction_fails 1 world0)) = [1]"
proof -
  have h: "extraction_error env_extraction_fails 1 \<noteq> None"
    by (simp add: env_extraction_fails_def)
  from extract_audio_temp_file [of world0 env_extraction_fails 1] h
  have "fst (extract_audio_from_video env_extraction_fails 1 world0) = None"
    and "files (snd (extract_audio_from_video env_extraction_fails 1 world0)) =
           files world0 @ [fresh_path (files world0)]"
    by blast+
  then show ?thesis using h by (simp add: world0_fields fresh_path_def)
qed

text \<open>
  C7.  \<open>transcribe_audio\<close> calls the model's inference exactly once, with the audio path,
  the given language code as the language, \<open>fp16=False\<close> and \<open>verbose=False\<close>.  It
  returns what the inference returns; when the inference raises, it returns \<open>None\<close> and
  shows one error banner.
\<close>

theorem transcribe_audio_contract:
  "calls (snd (transcribe_audio e audio_path model language_code w)) =
     calls w @ [\<lparr>call_model = model, call_audio = audio_path,
                 call_language = Some language_code, call_fp16 = False,
                 call_verbose = Some False\<rparr>] \<and>
   (case inference e \<lparr>call_model = model, call_audio = audio_path,
                       call_language = Some language_code, call_fp16 = False,
                       call_verbose = Some False\<rparr> of
      Inr r \<Rightarrow>
        fst (transcribe_audio e audio_path model language_code w) = Some r \<and>
        page (snd (transcribe_audio e audio_path model language_code w)) = page w
    | Inl x \<Rightarrow>
        fst (transcribe_audio e audio_path model language_code w) = None \<and>
        page (snd (transcribe_audio e audio_path model language_code w)) =
          page w @ [Error (lit ''Error during transcription: '' @ exn_str x)])"
  by (simp add: transcribe_audio_def Let_def st_error_def split: sum.splits)

lemma after_transcribe_cache [simp]:
  "cache (snd (after_transcribe g inp v a r w)) = cache w"
  "next_obj (snd (after_transcribe g inp v a r w)) = next_obj w"
  by (cases r; simp add: after_transcribe_Some split: sum.splits)+

lemma after_extract_cache:
  "cache (snd (after_extract g e inp v a w)) =
     cache (snd (load_whisper_model e (model_size inp) w))"
  "next_obj (snd (after_extract g e inp v a w)) =
     next_obj (snd (load_whisper_model e (model_size inp) w))"
proof -
  have eq: "snd (load_whisper_model e n (set_progress p (set_status s w))) =
      set_progress p (set_status s (snd (load_whisper_model e n w)))" for n p s
    by (simp add: load_whisper_model_def whisper_load_model_def set_progress_def set_status_def
          split: option.splits)
  show "cache (snd (after_extract g e inp v a w)) =
     cache (snd (load_whisper_model e (model_size inp) w))"
    by (simp add: after_extract_def Let_def split_beta eq split: sum.splits option.splits)
  show "next_obj (snd (after_extract g e inp v a w)) =
     next_obj (snd (load_whisper_model e (model_size inp) w))"
    by (simp add: after_extract_def Let_def split_beta eq split: sum.splits option.splits)
qed

lemma load_snd_frame:
  assumes "cache w' = cache w" and "next_obj w' = next_obj w"
  shows "cache (snd (load_whisper_model e n w')) = cache (snd (load_whisper_model e n w))"
    and "next_obj (snd (load_whisper_model e n w')) = next_obj (snd (load_whisper_model e n w))"
  using assms
  by (simp_all add: load_whisper_model_def whisper_load_model_def split: option.splits)

lemma script_cache_cases:
  "(cache (snd (script e inp w)) = cache w \<and> next_obj (snd (script e inp w)) = next_obj w) \<or>
   (cache (snd (script e inp w)) = cache (snd (load_whisper_model e (model_size inp) w)) \<and>
    next_obj (snd (script e inp w)) = next_obj (snd (load_whisper_model e (model_size inp) w)))"
proof (cases "uploaded_file inp = None \<or> \<not> button inp")
  case True
  then show ?thesis by (simp add: script_idle)
next
  case False
  then obtain up where up: "uploaded_file inp = Some up" and b: "button inp" by auto
  note s = script_run(1) [OF up b, of e w]
  have st: "cache (snd (script e inp w)) = cache (snd (main_try globals_at_main e inp (started w)))"
    "next_obj (snd (script e inp w)) = next_obj (snd (main_try globals_at_main e inp (started w)))"
    by (simp_all add: s start_transcription_eq st_error_def split: sum.splits)
  show ?thesis
  proof (cases "upload_write_error e")
    case (Some x)
    then show ?thesis by (simp add: st main_try_upload_fails)
  next
    case upl: None
    show ?thesis
    proof (cases "extraction_error e (temp_video w)")
      case (Some x)
      with upl have "cache (snd (main_try globals_at_main e inp (started w))) = cache w"
        and "next_obj (snd (main_try globals_at_main e inp (started w))) = next_obj w"
        by (simp_all add: main_try_extract_fails)
      then show ?thesis by (simp add: st)
    next
      case None
      have "cache (snd (load_whisper_model e (model_size inp) (extracted (started w)))) =
          cache (snd (load_whisper_model e (model_size inp) w))"
        and "next_obj (snd (load_whisper_model e (model_size inp) (extracted (started w)))) =
          next_obj (snd (load_whisper_model e (model_size inp) w))"
        by (rule load_snd_frame; simp)+
      with upl None show ?thesis
        by (simp add: st main_try_after_extract after_extract_cache)
    qed
  qed
qed

lemma script_keeps_cache:
  assumes "map_of (cache w) n = Some m"
  shows "map_of (cache (snd (script e inp w))) n = Some m"
proof -
  have "load_whisper_model e (model_size inp) w =
      (fst (load_whisper_model e (model_size inp) w), snd (load_whisper_model e (model_size inp) w))"
    by simp
  then have "map_of (cache (snd (load_whisper_model e (model_size inp) w))) n = Some m"
    using assms by (rule load_whisper_model_keeps)
  with assms script_cache_cases [of e inp w] show ?thesis by auto
qed

lemma script_cache_ok:
  assumes "cache_ok w"
  shows "cache_ok (snd (script e inp w))"
proof -
  have "load_whisper_model e (model_size inp) w =
      (fst (load_whisper_model e (model_size inp) w), snd (load_whisper_model e (model_size inp) w))"
    by simp
  then have "cache_ok (snd (load_whisper_model e (model_size inp) w))"
    using assms by (rule load_whisper_model_cache_ok)
  with assms script_cache_cases [of e inp w] show ?thesis
    by (auto simp: cache_ok_def)
qed

text \<open>
  C6.  In a running process, a second call of the model loader with the same size
  identifier returns the object of the first call and loads nothing.  A call with another
  identifier returns an object with another identity, and both objects stay in the store:
  later calls return them again, and no run of the script removes an entry.
\<close>

theorem load_whisper_model_memo:
  assumes "cache_ok w" and "load_whisper_model e1 a w = (Inr m1, w1)"
  shows "load_whisper_model e2 a w1 = (Inr m1, w1) \<and>
         map_of (cache (snd (script e5 inp w1))) a = Some m1 \<and>
         (a \<noteq> b \<and> load_whisper_model e3 b w1 = (Inr m2, w2) \<longrightarrow>
            model_id m2 \<noteq> model_id m1 \<and>
            map_of (cache w2) a = Some m1 \<and> map_of (cache w2) b = Some m2 \<and>
            load_whisper_model e4 a w2 = (Inr m1, w2) \<and>
            load_whisper_model e4 b w2 = (Inr m2, w2) \<and>
            map_of (cache (snd (script e5 inp w2))) a = Some m1 \<and>
            map_of (cache (snd (script e5 inp w2))) b = Some m2)"
proof -
  have stored: "map_of (cache w1) a = Some m1"
    using assms(2) by (rule load_whisper_model_stores)
  have again: "load_whisper_model e2 a w1 = (Inr m1, w1)"
    using stored by (rule load_whisper_model_hit)
  have life: "map_of (cache (snd (script e5 inp w1))) a = Some m1"
    using stored by (rule script_keeps_cache)
  have ok1: "cache_ok w1" using assms(2,1) by (rule load_whisper_model_cache_ok)
  have other: "model_id m2 \<noteq> model_id m1 \<and>
            map_of (cache w2) a = Some m1 \<and> map_of (cache w2) b = Some m2 \<and>
            load_whisper_model e4 a w2 = (Inr m1, w2) \<and>
            load_whisper_model e4 b w2 = (Inr m2, w2) \<and>
            map_of (cache (snd (script e5 inp w2))) a = Some m1 \<and>
            map_of (cache (snd (script e5 inp w2))) b = Some m2"
    if ne: "a \<noteq> b" and ld: "load_whisper_model e3 b w1 = (Inr m2, w2)"
  proof -
    have a2: "map_of (cache w2) a = Some m1" using ld stored by (rule load_whisper_model_keeps)
    have b2: "map_of (cache w2) b = Some m2" using ld by (rule load_whisper_model_stores)
    have ok2: "cache_ok w2" using ld ok1 by (rule load_whisper_model_cache_ok)
    have "model_id m2 \<noteq> model_id m1"
    proof (rule cache_ok_distinct_objects [OF ok2 b2 a2])
      show "b \<noteq> a" using ne by simp
    qed
    moreover have "load_whisper_model e4 a w2 = (Inr m1, w2)"
      using a2 by (rule load_whisper_model_hit)
    moreover have "load_whisper_model e4 b w2 = (Inr m2, w2)"
      using b2 by (rule load_whisper_model_hit)
    moreover have "map_of (cache (snd (script e5 inp w2))) a = Some m1"
      using a2 by (rule script_keeps_cache)
    moreover have "map_of (cache (snd (script e5 inp w2))) b = Some m2"
      using b2 by (rule script_keeps_cache)
    ultimately show ?thesis using a2 b2 by blast
  qed
  from again life other show ?thesis by blast
qed

lemma world0_cache_ok: "cache_ok world0"
  by (simp add: cache_ok_def world0_def)

lemma small_ne_tiny: "lit ''small'' \<noteq> lit ''tiny''"
  by (simp add: lit_def)

lemma load_small:
  "load_whisper_model (env_ok r) (lit ''small'') world0 = (Inr small_model, world_small)"
  by (simp add: load_whisper_model_def whisper_load_model_def world0_def env_ok_def
        small_model_def world_small_def)

lemma load_tiny:
  "load_whisper_model (env_ok r) (lit ''tiny'') world_small = (Inr tiny_model, world_both)"
  using small_ne_tiny
  by (simp add: load_whisper_model_def whisper_load_model_def world0_def env_ok_def
        small_model_def tiny_model_def world_small_def world_both_def)

theorem load_whisper_model_memo_witness:
  "cache_ok world0 \<and>
   load_whisper_model (env_ok silent_result) (lit ''small'') world0 = (Inr small_model, world_small) \<and>
   load_whisper_model env_load_fails (lit ''small'') world_small = (Inr small_model, world_small) \<and>
   lit ''small'' \<noteq> lit ''tiny'' \<and>
   load_whisper_model (env_ok silent_result) (lit ''tiny'') world_small = (Inr tiny_model, world_both) \<and>
   model_id tiny_model \<noteq> model_id small_model \<and>
   map_of (cache world_both) (lit ''small'') = Some small_model \<and>
   map_of (cache world_both) (lit ''tiny'') = Some tiny_model \<and>
   load_whisper_model env_load_fails (lit ''small'') world_both = (Inr small_model, world_both) \<and>
   load_whisper_model env_load_fails (lit ''tiny'') world_both = (Inr tiny_model, world_both)"
proof -
  note c1 = world0_cache_ok
  note c2 = load_small [of silent_result]
  note c4 = small_ne_tiny
  note c5 = load_tiny [of silent_result]
  note t = load_whisper_model_memo [OF c1 c2,
      of env_load_fails env_load_fails inputs0 "lit ''tiny''" "env_ok silent_result"
         tiny_model world_both env_load_fails]
  note c3 = conjunct1 [OF t]
  note rest = mp [OF conjunct2 [OF conjunct2 [OF t]] conjI [OF c4 c5]]
  from c1 c2 c3 c4 c5 rest show ?thesis by (intro conjI) (elim conjE, assumption)+
qed

lemma is_srt_download_simps [simp]:
  "\<not> is_srt_download (txt_button inp res)"
  "is_srt_download (srt_button inp c)"
  "\<not> is_srt_download (outer_error x)"
  "filter is_srt_download (presented_head res) = []"
  by (simp_all add: txt_button_def srt_button_def outer_error_def presented_head_def)

lemma is_error_simps [simp]:
  "\<not> is_error (txt_button inp res)" "\<not> is_error (srt_button inp c)" "is_error (outer_error x)"
  "filter is_error (presented_head res) = []"
  by (simp_all add: txt_button_def srt_button_def outer_error_def presented_head_def)

lemma env_ok_fields:
  "upload_write_error (env_ok r) = None" "extraction_error (env_ok r) p = None"
  "load_model_error (env_ok r) n = None" "inference (env_ok r) c = Inr r"
  by (simp_all add: env_ok_def)

lemma script_inputs0:
  "snd (script e inputs0 w) = start_transcription globals_at_main e inputs0 w"
  "fst (script e inputs0 w) = globals_at_main @ [''format_time_srt'']"
  by (rule script_run; simp add: inputs0_fields)+

text \<open>
  C9, as it is written.  When the model reports no segment, the SRT branch is reached,
  the loop makes no call, no exception is raised, and the SRT download is offered with
  empty content.
\<close>

theorem empty_segments_srt_offered:
  "filter is_srt_download (page (snd (script (env_ok silent_result) inputs0 world0))) =
     [DownloadButton ([127916] @ lit '' Download as SRT'') [] (lit ''subtitles_hindi.srt'')
        (lit ''text/plain'')] \<and>
   filter is_error (page (snd (script (env_ok silent_result) inputs0 world0))) = []"
proof -
  have ld: "fst (load_whisper_model (env_ok silent_result) (model_size inputs0) world0) =
      Inr small_model"
    by (rule world0_load) (rule env_ok_fields)
  have out: "present_outcome globals_at_main silent_result = Inr ()"
    by (simp add: present_outcome_main silent_result_def)
  note r = run_transcribed_ok [OF env_ok_fields(1,2) ld hindi_code env_ok_fields(4) out]
  have pg: "page (snd (script (env_ok silent_result) inputs0 world0)) =
      presented globals_at_main inputs0 silent_result"
    by (simp add: script_inputs0 r world0_fields)
  have sg: "res_segments silent_result = Some []" by (simp add: silent_result_def)
  have btn: "srt_button inputs0 [] =
      DownloadButton ([127916] @ lit '' Download as SRT'') [] (lit ''subtitles_hindi.srt'')
        (lit ''text/plain'')"
    by (simp add: srt_button_def inputs0_def lower_def lit_def)
  show ?thesis
    by (simp add: pg presented_main sg btn)
qed

text \<open>
  C9 (as amended).  The block of lines 97 to 213 runs before the \<open>def\<close> of line 215,
  so \<open>format_time_srt\<close> is not bound there.  Whenever the SRT branch is reached with at
  least one segment, the first call raises \<open>NameError\<close>, the outer handler catches it,
  and no SRT download is offered.  With an empty list of segments the loop makes no call
  and the SRT download is offered with empty content.
\<close>

theorem srt_branch_name_error:
  assumes "uploaded_file inp = Some up" and "button inp"
      and "upload_write_error e = None" and "extraction_error e (temp_video w) = None"
      and "fst (load_whisper_model e (model_size inp) w) = Inr m"
      and "map_of INDIC_LANGUAGES (selected_language inp) = Some l"
      and "inference e (transcribe_args m (temp_audio w) l) = Inr res"
  shows "''format_time_srt'' \<notin> set globals_at_main \<and>
         ''format_time_srt'' \<in> set (fst (script e inp w)) \<and>
         (res_segments res = Some (seg # segs) \<longrightarrow>
            srt_loop globals_at_main 1 (seg # segs) [] = Inl (NameError (lit ''format_time_srt'')) \<and>
            page (snd (script e inp w)) =
              page w @ presented_head res @
              [Subheader ([9200] @ lit '' Timestamped Segments''),
               Dataframe (map segment_row (seg # segs)),
               Subheader ([128190] @ lit '' Download Options''), txt_button inp res,
               Error (lit ''An error occurred: '' @ exn_str (NameError (lit ''format_time_srt'')))] \<and>
            filter is_srt_download (page (snd (script e inp w))) = filter is_srt_download (page w) \<and>
            progress_bar (snd (script e inp w)) = None \<and>
            status_text (snd (script e inp w)) = None) \<and>
         (res_segments res = Some [] \<longrightarrow>
            page (snd (script e inp w)) =
              page w @ presented_head res @
              [Subheader ([9200] @ lit '' Timestamped Segments''), Dataframe [],
               Subheader ([128190] @ lit '' Download Options''), txt_button inp res,
               srt_button inp []])"
proof -
  note s = script_run [OF assms(1,2), of e w]
  have bound: "''format_time_srt'' \<in> set (fst (script e inp w))" by (simp add: s)
  have some: "srt_loop globals_at_main 1 (seg # segs) [] = Inl (NameError (lit ''format_time_srt'')) \<and>
            page (snd (script e inp w)) =
              page w @ presented_head res @
              [Subheader ([9200] @ lit '' Timestamped Segments''),
               Dataframe (map segment_row (seg # segs)),
               Subheader ([128190] @ lit '' Download Options''), txt_button inp res,
               Error (lit ''An error occurred: '' @ exn_str (NameError (lit ''format_time_srt'')))] \<and>
            filter is_srt_download (page (snd (script e inp w))) = filter is_srt_download (page w) \<and>
            progress_bar (snd (script e inp w)) = None \<and>
            status_text (snd (script e inp w)) = None"
    if sg: "res_segments res = Some (seg # segs)"
  proof -
    have out: "present_outcome globals_at_main res = Inl (NameError (lit ''format_time_srt''))"
      by (simp add: present_outcome_main sg)
    note r = run_transcribed_raises [OF assms(3-7) out]
    have pg: "page (snd (script e inp w)) =
        page w @ presented globals_at_main inp res @ [outer_error (NameError (lit ''format_time_srt''))]"
      by (simp add: s r)
    have p1: "page (snd (script e inp w)) =
              page w @ presented_head res @
              [Subheader ([9200] @ lit '' Timestamped Segments''),
               Dataframe (map segment_row (seg # segs)),
               Subheader ([128190] @ lit '' Download Options''), txt_button inp res,
               Error (lit ''An error occurred: '' @ exn_str (NameError (lit ''format_time_srt'')))]"
      by (simp add: pg presented_main sg outer_error_def)
    have p2: "filter is_srt_download (page (snd (script e inp w))) = filter is_srt_download (page w)"
      by (simp add: pg presented_main sg)
    have p3: "progress_bar (snd (script e inp w)) = None" "status_text (snd (script e inp w)) = None"
      by (simp_all add: s r)
    have p0: "srt_loop globals_at_main 1 (seg # segs) [] = Inl (NameError (lit ''format_time_srt''))"
      using format_time_srt_unbound by (rule srt_loop_unbound)
    from p0 p1 p2 p3 show ?thesis by blast
  qed
  have none: "page (snd (script e inp w)) =
              page w @ presented_head res @
              [Subheader ([9200] @ lit '' Timestamped Segments''), Dataframe [],
               Subheader ([128190] @ lit '' Download Options''), txt_button inp res,
               srt_button inp []]"
    if sg: "res_segments res = Some []"
  proof -
    have out: "present_outcome globals_at_main res = Inr ()"
      by (simp add: present_outcome_main sg)
    note r = run_transcribed_ok [OF assms(3-7) out]
    show ?thesis by (simp add: s r presented_main sg)
  qed
  from format_time_srt_unbound bound some none show ?thesis by blast
qed

lemma one_segment_run:
  "page (start_transcription globals_at_main (env_ok one_segment_result) inputs0 world0) =
     presented globals_at_main inputs0 one_segment_result @
     [outer_error (NameError (lit ''format_time_srt''))]"
  "progress_bar (start_transcription globals_at_main (env_ok one_segment_result) inputs0 world0) = None"
  "status_text (start_transcription globals_at_main (env_ok one_segment_result) inputs0 world0) = None"
proof -
  have ld: "fst (load_whisper_model (env_ok one_segment_result) (model_size inputs0) world0) =
      Inr small_model"
    by (rule world0_load) (rule env_ok_fields)
  have out: "present_outcome globals_at_main one_segment_result =
      Inl (NameError (lit ''format_time_srt''))"
    by (simp add: present_outcome_main one_segment_result_def)
  note r = run_transcribed_raises [OF env_ok_fields(1,2) ld hindi_code env_ok_fields(4) out]
  show "page (start_transcription globals_at_main (env_ok one_segment_result) inputs0 world0) =
     presented globals_at_main inputs0 one_segment_result @
     [outer_error (NameError (lit ''format_time_srt''))]"
    by (simp add: r world0_fields)
  show "progress_bar (start_transcription globals_at_main (env_ok one_segment_result) inputs0 world0) = None"
    by (rule r)
  show "status_text (start_transcription globals_at_main (env_ok one_segment_result) inputs0 world0) = None"
    by (rule r)
qed

theorem srt_branch_name_error_witness:
  "uploaded_file inputs0 = Some \<lparr>file_name = lit ''clip.mp4'', payload = []\<rparr> \<and> button inputs0 \<and>
   upload_write_error (env_ok one_segment_result) = None \<and>
   extraction_error (env_ok one_segment_result) (temp_video world0) = None \<and>
   fst (load_whisper_model (env_ok one_segment_result) (model_size inputs0) world0) = Inr small_model \<and>
   map_of INDIC_LANGUAGES (selected_language inputs0) = Some (lit ''hi'') \<and>
   inference (env_ok one_segment_result) (transcribe_args small_model (temp_audio world0) (lit ''hi'')) =
     Inr one_segment_result \<and>
   res_segments one_segment_result = Some [hello_segment] \<and>
   filter is_srt_download (page (snd (script (env_ok one_segment_result) inputs0 world0))) = [] \<and>
   progress_bar (snd (script (env_ok one_segment_result) inputs0 world0)) = None \<and>
   status_text (snd (script (env_ok one_segment_result) inputs0 world0)) = None"
proof -
  note h1 = inputs0_fields(1)
  note h2 = inputs0_fields(2)
  note h3 = env_ok_fields(1) [of one_segment_result]
  note h4 = env_ok_fields(2) [of one_segment_result "temp_video world0"]
  have h5: "fst (load_whisper_model (env_ok one_segment_result) (model_size inputs0) world0) =
      Inr small_model"
    by (rule world0_load) (rule env_ok_fields)
  note h6 = hindi_code
  note h7 = env_ok_fields(4) [of one_segment_result
      "transcribe_args small_model (temp_audio world0) (lit ''hi'')"]
  have h8: "res_segments one_segment_result = Some (hello_segment # [])"
    by (simp add: one_segment_result_def)
  note t = srt_branch_name_error [OF h1 h2 h3 h4 h5 h6 h7, of hello_segment "[]"]
  note c = mp [OF conjunct1 [OF conjunct2 [OF conjunct2 [OF t]]] h8]
  have c1: "filter is_srt_download (page (snd (script (env_ok one_segment_result) inputs0 world0))) = []"
    using c by (simp add: world0_fields)
  have c2: "progress_bar (snd (script (env_ok one_segment_result) inputs0 world0)) = None"
    and c3: "status_text (snd (script (env_ok one_segment_result) inputs0 world0)) = None"
    using c by blast+
  show ?thesis by (intro conjI) (fact h1 h2 h3 h4 h5 h6 h7 h8 c1 c2 c3)+
qed

lemma strip_hello: "strip (lit '' hello '') = lit ''hello''"
  by (simp add: strip_def is_space_def lit_def)

text \<open>
  C1 at a result with one segment.  The run ends in the outer handler with the banner of
  the \<open>NameError\<close> and offers no SRT download, although the loop, run once
  \<open>format_time_srt\<close> is bound, yields the one block that the claim describes.
\<close>

theorem srt_artifact_missing_one_segment:
  "filter is_srt_download (page (snd (script (env_ok one_segment_result) inputs0 world0))) = [] \<and>
   filter is_error (page (snd (script (env_ok one_segment_result) inputs0 world0))) =
     [Error (lit ''An error occurred: '' @ exn_str (NameError (lit ''format_time_srt'')))] \<and>
   srt_loop (fst (script (env_ok one_segment_result) inputs0 world0)) 1 [hello_segment] [] =
     Inr (lit ''1'' @ [10] @ lit ''00:00:00,000 --> 01:01:01,500'' @ [10] @ lit ''hello'' @ [10, 10])"
proof -
  have sg: "res_segments one_segment_result = Some [hello_segment]"
    by (simp add: one_segment_result_def)
  have a: "filter is_srt_download (page (snd (script (env_ok one_segment_result) inputs0 world0))) = []"
    by (simp add: script_inputs0 one_segment_run presented_main sg)
  have b: "filter is_error (page (snd (script (env_ok one_segment_result) inputs0 world0))) =
     [Error (lit ''An error occurred: '' @ exn_str (NameError (lit ''format_time_srt'')))]"
    by (simp add: script_inputs0 one_segment_run outer_error_def)
  have g: "''format_time_srt'' \<in> set (fst (script (env_ok one_segment_result) inputs0 world0))"
    by (simp add: script_inputs0)
  have blk: "srt_block (Suc 0) hello_segment =
      lit ''1'' @ [10] @ lit ''00:00:00,000 --> 01:01:01,500'' @ [10] @ lit ''hello'' @ [10, 10]"
    by (simp add: srt_block_def hello_segment_def format_time_srt_0 format_time_srt_3661_5
          strip_hello [unfolded lit_def, simplified] str_nat_small lit_def)
  have c: "srt_loop (fst (script (env_ok one_segment_result) inputs0 world0)) 1 [hello_segment] [] =
     Inr (lit ''1'' @ [10] @ lit ''00:00:00,000 --> 01:01:01,500'' @ [10] @ lit ''hello'' @ [10, 10])"
    by (simp add: srt_loop_bound [OF g] blk del: srt_loop.simps)
  from a b c show ?thesis by (intro conjI)
qed

end
